theory Spec2Isabelle
  imports Complex_Main
begin

section \<open>Python exceptions and loops\<close>

text \<open>
  Every exception that the two modules raise, catch or let through is a value of
  \<open>error\<close>. A callback supplied by the user may raise anything: \<open>UserException\<close> stands
  for an instance of Python's \<open>Exception\<close>, \<open>UserBaseException\<close> for one that is only a
  \<open>BaseException\<close> (KeyboardInterrupt, SystemExit), which \<open>except Exception\<close> lets through.
\<close>

datatype error =
    ValueError string
  | InvalidApply string
  | TypeError string
  | IndexError
  | AssertionError
  | AttributeError
  | RuntimeError
  | UnboundLocalError
  | OutOfBoundsDatetime
  | OverflowError
  | UserException string
  | UserBaseException string

fun is_Exception :: "error \<Rightarrow> bool" where
  "is_Exception (UserBaseException _) = False"
| "is_Exception _ = True"

text \<open>
  One pass of a loop body either goes on to the next index (also Python's \<open>continue\<close>),
  leaves the loop (\<open>break\<close>) or raises. The state reached is kept in all three cases, since
  the \<open>finally\<close> blocks of the source run on it.
\<close>

datatype 's step = Next 's | Break 's | Raise error 's

fun for_loop :: "(nat \<Rightarrow> 's \<Rightarrow> 's step) \<Rightarrow> nat list \<Rightarrow> 's \<Rightarrow> 's \<times> error option" where
  "for_loop body [] s = (s, None)"
| "for_loop body (i # is) s =
     (case body i s of
        Next s' \<Rightarrow> for_loop body is s'
      | Break s' \<Rightarrow> (s', None)
      | Raise e s' \<Rightarrow> (s', Some e))"

text \<open>Python's \<open>xs[i]\<close> for \<open>i\<close> drawn from \<open>range\<close>: IndexError past the end.\<close>

definition getitem :: "'a list \<Rightarrow> nat \<Rightarrow> error + 'a" where
  "getitem xs i = (if i < length xs then Inr (xs ! i) else Inl IndexError)"

text \<open>
  Python's \<open>xs[i] = v\<close> for a signed index: a negative index counts from the end
  (the reduction module leaves Cython's \<open>wraparound\<close> and \<open>boundscheck\<close> switched on).
\<close>

definition setitem :: "'a list \<Rightarrow> int \<Rightarrow> 'a \<Rightarrow> error + 'a list" where
  "setitem xs i v =
     (if 0 \<le> i \<and> i < int (length xs) then Inr (xs[nat i := v])
      else if i < 0 \<and> - int (length xs) \<le> i then Inr (xs[nat (int (length xs) + i) := v])
      else Inl IndexError)"

section \<open>Array views and the Slider\<close>

text \<open>
  A one-dimensional NumPy array as the reduction module sees it: the address of its first
  element (\<open>data\<close>), its length (\<open>shape[0]\<close>), its stride in bytes (\<open>strides[0]\<close>), its
  dtype, its number of dimensions, whether it is contiguous and the size of an element. The
  elements themselves stay in memory and are not part of the view.
\<close>

record ndarray =
  data :: int
  shape0 :: int
  stride0 :: int
  dtype :: string
  ndim :: nat
  contiguous :: bool
  itemsize :: int

text \<open>
  \<open>ndarray.copy()\<close>: the same elements laid out contiguously in new memory. \<open>alloc\<close>
  gives the address of the new memory; it is a parameter of everything that may copy.
\<close>

definition array_copy :: "(ndarray \<Rightarrow> int) \<Rightarrow> ndarray \<Rightarrow> ndarray" where
  "array_copy alloc a = a\<lparr> data := alloc a, stride0 := itemsize a, contiguous := True \<rparr>"

text \<open>
  \<open>Slider\<close>: \<open>buf\<close> is the destination (dummy) array, which the slider re-points into
  \<open>values\<close>; the three \<open>orig\<close> fields remember what \<open>buf\<close> was.
\<close>

record slider =
  sl_values :: ndarray
  sl_buf :: ndarray
  sl_stride :: int
  orig_data :: int
  orig_len :: int
  orig_stride :: int

text \<open>\<open>Slider.__init__\<close>\<close>

definition Slider :: "(ndarray \<Rightarrow> int) \<Rightarrow> ndarray \<Rightarrow> ndarray \<Rightarrow> error + slider" where
  "Slider alloc vals buf =
     (if ndim vals \<noteq> 1 then Inl AssertionError
      else if dtype vals \<noteq> dtype buf then Inl AssertionError
      else
        let vals' = (if \<not> contiguous vals then array_copy alloc vals else vals);
            stride = stride0 vals'
        in Inr \<lparr> sl_values = vals',
                 sl_buf = buf\<lparr> data := data vals', stride0 := stride \<rparr>,
                 sl_stride = stride,
                 orig_data = data buf,
                 orig_len = shape0 buf,
                 orig_stride = stride0 buf \<rparr>)"

definition advance :: "slider \<Rightarrow> int \<Rightarrow> slider" where
  "advance s k = s\<lparr> sl_buf := (sl_buf s)\<lparr> data := data (sl_buf s) + sl_stride s * k \<rparr> \<rparr>"

text \<open>\<open>Slider.move\<close> takes C \<open>int\<close> arguments; the callers convert (see \<open>c_int\<close> below).\<close>

definition move :: "slider \<Rightarrow> int \<Rightarrow> int \<Rightarrow> slider" where
  "move s start stop =
     s\<lparr> sl_buf := (sl_buf s)\<lparr> data := data (sl_values s) + sl_stride s * start,
                              shape0 := stop - start \<rparr> \<rparr>"

definition set_length :: "slider \<Rightarrow> int \<Rightarrow> slider" where
  "set_length s len = s\<lparr> sl_buf := (sl_buf s)\<lparr> shape0 := len \<rparr> \<rparr>"

definition reset :: "slider \<Rightarrow> slider" where
  "reset s =
     s\<lparr> sl_buf := (sl_buf s)\<lparr> shape0 := orig_len s, data := orig_data s,
                              stride0 := orig_stride s \<rparr> \<rparr>"

text \<open>A 64-bit value passed where the callee takes a C \<open>int\<close> keeps its low 32 bits.\<close>

definition c_int :: "int \<Rightarrow> int" where
  "c_int x = (x + 2 ^ 31) mod 2 ^ 32 - 2 ^ 31"

section \<open>apply_frame_axis0 and the BlockSlider\<close>

text \<open>
  One block of a frame: a two-dimensional array whose axis 1 is the frame's row axis.
\<close>

record block =
  bdata :: int
  bshape1 :: int
  bstride1 :: int
  bcontiguous :: bool

text \<open>
  A frame. \<open>frame_id\<close> and \<open>index_id\<close> are the identities of the frame object and of its
  index object (what Python's \<open>is\<close> compares).
\<close>

record frame =
  frame_id :: nat
  index_id :: nat
  has_complex_internals :: bool
  index_data :: ndarray
  blocks :: "block list"
  frame_name :: "string option"

text \<open>
  What the callback returns: an object with its identity and, when it has an \<open>index\<close>
  attribute, the identity of that index (\<open>None\<close>: reading \<open>piece.index\<close> raises
  AttributeError, as for an \<open>int\<close>).
\<close>

datatype piece = Obj (obj_id: nat) (obj_index: "nat option")

text \<open>The window itself, seen as a returned object.\<close>

definition as_piece :: "frame \<Rightarrow> piece" where
  "as_piece chunk = Obj (frame_id chunk) (Some (index_id chunk))"

text \<open>
  An entry of the results list: the piece as returned, or \<open>piece.copy(deep='all')\<close>
  (pandas code outside this module; the model records the call).
\<close>

datatype stored = Kept piece | DeepCopy piece

text \<open>
  The callback: its first argument is the number of calls made before this one, which
  stands for whatever state a Python callable keeps between calls.
\<close>

type_synonym frame_callback = "nat \<Rightarrow> frame \<Rightarrow> error + piece"

record block_slider =
  bs_frame :: frame
  bs_dummy :: frame
  bs_nblocks :: nat
  bs_idx_slider :: slider
  bs_base_ptrs :: "int list"

text \<open>
  \<open>BlockSlider.__init__\<close>. \<open>slice0\<close> is pandas' \<open>frame[:0]\<close>, a parameter. The arrays of
  the dummy's blocks and the dummy's \<open>_index_data\<close> live inside \<open>bs_dummy\<close> (the source
  holds them by reference in \<open>blocks\<close> and \<open>idx_slider.buf\<close>).
\<close>

definition BlockSlider ::
  "(frame \<Rightarrow> frame) \<Rightarrow> (ndarray \<Rightarrow> int) \<Rightarrow> frame \<Rightarrow> error + block_slider" where
  "BlockSlider slice0 alloc fr =
     (let dummy = slice0 fr;
          blks = map (\<lambda>b. b\<lparr> bcontiguous := False \<rparr>) (blocks dummy)
      in case Slider alloc (index_data fr) (index_data dummy) of
           Inl e \<Rightarrow> Inl e
         | Inr idx \<Rightarrow>
             Inr \<lparr> bs_frame = fr,
                   bs_dummy = dummy\<lparr> blocks := blks, index_data := sl_buf idx \<rparr>,
                   bs_nblocks = length blks,
                   bs_idx_slider = idx,
                   bs_base_ptrs = map bdata blks \<rparr>)"

definition bs_move :: "block_slider \<Rightarrow> int \<Rightarrow> int \<Rightarrow> block_slider" where
  "bs_move s start stop =
     (let blks = map2 (\<lambda>base b. b\<lparr> bdata := base + bstride1 b * start,
                                    bshape1 := stop - start \<rparr>)
                      (bs_base_ptrs s) (blocks (bs_dummy s));
          idx = move (bs_idx_slider s) start stop
      in s\<lparr> bs_idx_slider := idx,
            bs_dummy := (bs_dummy s)\<lparr> blocks := blks, index_data := sl_buf idx \<rparr> \<rparr>)"

definition bs_reset :: "block_slider \<Rightarrow> block_slider" where
  "bs_reset s =
     s\<lparr> bs_dummy := (bs_dummy s)\<lparr> blocks :=
          map2 (\<lambda>base b. b\<lparr> bdata := base, bshape1 := 0 \<rparr>)
               (bs_base_ptrs s) (blocks (bs_dummy s)) \<rparr> \<rparr>"

text \<open>The variables of the loop in \<open>apply_frame_axis0\<close>.\<close>

record apply_state =
  ap_slider :: block_slider
  ap_results :: "stored list"
  ap_mutated :: bool

text \<open>
  The body of \<open>for i in range(n)\<close>. \<open>starts\<close> and \<open>ends\<close> are typed memoryviews and
  \<open>names\<close> an object, all indexed with bounds checks. The clearing of the dummy's item
  cache has no counterpart here: the model keeps no such cache.
\<close>

definition apply_body ::
  "frame_callback \<Rightarrow> string list \<Rightarrow> int list \<Rightarrow> int list \<Rightarrow> nat \<Rightarrow> apply_state
    \<Rightarrow> apply_state step" where
  "apply_body f names starts ends i st =
     (case getitem starts i of Inl e \<Rightarrow> Raise e st | Inr start \<Rightarrow>
      case getitem ends i of Inl e \<Rightarrow> Raise e st | Inr stop \<Rightarrow>
      let sl = bs_move (ap_slider st) (c_int start) (c_int stop);
          st1 = st\<lparr> ap_slider := sl \<rparr>
      in case getitem names i of Inl e \<Rightarrow> Raise e st1 | Inr name \<Rightarrow>
      let sl2 = sl\<lparr> bs_dummy := (bs_dummy sl)\<lparr> frame_name := Some name \<rparr> \<rparr>;
          st2 = st\<lparr> ap_slider := sl2 \<rparr>;
          chunk = bs_dummy sl2
      in case f i chunk of
           Inl e \<Rightarrow>
             if is_Exception e then Raise (InvalidApply ''Let this error raise above us'') st2
             else Raise e st2
         | Inr piece \<Rightarrow>
             let require_slow_apply = (i = 0 \<and> obj_id piece = frame_id chunk);
                 st3 = (case obj_index piece of
                          None \<Rightarrow> st2\<lparr> ap_results := ap_results st2 @ [Kept piece] \<rparr>
                        | Some ix \<Rightarrow>
                            if ix = index_id chunk
                            then st2\<lparr> ap_results := ap_results st2 @ [DeepCopy piece] \<rparr>
                            else st2\<lparr> ap_mutated := True,
                                      ap_results := ap_results st2 @ [Kept piece] \<rparr>)
             in if require_slow_apply then Break st3 else Next st3)"

text \<open>
  \<open>apply_frame_axis0\<close> returns what the Python function returns or raises, together with
  the block slider as the call leaves it (\<open>None\<close>: never constructed).
\<close>

definition apply_frame_axis0 ::
  "(frame \<Rightarrow> frame) \<Rightarrow> (ndarray \<Rightarrow> int) \<Rightarrow> frame \<Rightarrow> frame_callback \<Rightarrow> string list
    \<Rightarrow> int list \<Rightarrow> int list \<Rightarrow> (error + stored list \<times> bool) \<times> block_slider option" where
  "apply_frame_axis0 slice0 alloc fr f names starts ends =
     (let n = length starts
      in if has_complex_internals fr
         then (Inl (InvalidApply ''Cannot modify frame index internals''), None)
         else case BlockSlider slice0 alloc fr of
                Inl e \<Rightarrow> (Inl e, None)
              | Inr sl \<Rightarrow>
                  let st0 = \<lparr> ap_slider = sl, ap_results = [], ap_mutated = False \<rparr>;
                      (st, exc) = for_loop (apply_body f names starts ends) [0..<n] st0;
                      sl' = bs_reset (ap_slider st)
                  in case exc of
                       Some e \<Rightarrow> (Inl e, Some sl')
                     | None \<Rightarrow> (Inr (ap_results st, ap_mutated st), Some sl'))"

text \<open>
  For the statements below: the window that the callback receives for a range, as a
  function of the block slider, and what the loop does with the piece that comes back.
\<close>

definition window_at :: "block_slider \<Rightarrow> string \<Rightarrow> int \<Rightarrow> int \<Rightarrow> frame" where
  "window_at sl name start stop =
     (bs_dummy (bs_move sl (c_int start) (c_int stop)))\<lparr> frame_name := Some name \<rparr>"

definition index_differs :: "frame \<Rightarrow> piece \<Rightarrow> bool" where
  "index_differs w p = (case obj_index p of None \<Rightarrow> False | Some ix \<Rightarrow> ix \<noteq> index_id w)"

definition store :: "frame \<Rightarrow> piece \<Rightarrow> stored" where
  "store w p =
     (case obj_index p of
        None \<Rightarrow> Kept p
      | Some ix \<Rightarrow> if ix = index_id w then DeepCopy p else Kept p)"

text \<open>
  \<open>apply_frame_axis0\<close> returns the pair \<open>(results, mutated)\<close> and nothing else:
  \<open>require_slow_apply\<close> is a local variable whose one effect is the \<open>break\<close>. What reaches
  the caller of an early stop is a results list with fewer entries than ranges were
  requested.
\<close>

definition stopped_early :: "int list \<Rightarrow> stored list \<times> bool \<Rightarrow> bool" where
  "stopped_early starts r = (length (fst r) < length starts)"

section \<open>Objects seen by the reduction callbacks\<close>

text \<open>A class, as far as the module looks at it: its name and its \<open>_subtyp\<close> attribute.\<close>

record pytype =
  type_name :: string
  type_subtyp :: "string option"

text \<open>
  The objects that go into and come out of a reduction callback, by what the module asks
  of them: a scalar (\<open>np.isscalar\<close>), a NumPy array (\<open>util.is_array\<close>), a list, an object
  with a \<open>values\<close> attribute (a Series or an Index: class, values, index, name and
  \<open>shape\<close> attribute), any other object (with its \<open>shape\<close> attribute if it has one), and
  the element read from an array by \<open>res.item()\<close> or \<open>res[0]\<close>.
\<close>

datatype pyobj =
    Scalar int
  | NdArray ndarray
  | PyList "pyobj list"
  | Labeled pytype pyobj "pyobj option" "pyobj option" "int list option"
  | Other "int list option"
  | ItemOf ndarray

type_synonym reduce_callback = "nat \<Rightarrow> pyobj \<Rightarrow> error + pyobj"

fun is_array :: "pyobj \<Rightarrow> bool" where
  "is_array (NdArray _) = True"
| "is_array _ = False"

fun isscalar :: "pyobj \<Rightarrow> bool" where
  "isscalar (Scalar _) = True"
| "isscalar (ItemOf _) = True"
| "isscalar _ = False"

fun is_sparse_array :: "pyobj \<Rightarrow> bool" where
  "is_sparse_array (Labeled t _ _ _ _) = (type_subtyp t = Some ''sparse_array'')"
| "is_sparse_array _ = False"

text \<open>
  \<open>getattr(obj, 'shape', None)\<close>. \<open>_get_result_array\<close> reads it only of objects that are
  not arrays.
\<close>

fun shape_attr :: "pyobj \<Rightarrow> int list option" where
  "shape_attr (Labeled _ _ _ _ sh) = sh"
| "shape_attr (Other sh) = sh"
| "shape_attr (NdArray a) = (if ndim a = 1 then Some [shape0 a] else None)"
| "shape_attr _ = None"

text \<open>
  \<open>if (not _is_sparse_array(res) and hasattr(res, 'values') and
  util.is_array(res.values)): res = res.values\<close>
\<close>

fun unwrap_values :: "pyobj \<Rightarrow> pyobj" where
  "unwrap_values (Labeled t v i n sh) =
     (if \<not> is_sparse_array (Labeled t v i n sh) \<and> is_array v then v else Labeled t v i n sh)"
| "unwrap_values obj = obj"

definition get_result_array :: "pyobj \<Rightarrow> nat \<Rightarrow> int \<Rightarrow> error + pyobj option list" where
  "get_result_array obj sz cnt =
     (if is_array obj
         \<or> (case obj of PyList xs \<Rightarrow> int (length xs) = cnt | _ \<Rightarrow> False)
         \<or> shape_attr obj = Some [cnt]
      then Inl (ValueError ''Function does not reduce'')
      else Inr (replicate sz None))"

definition extract_result :: "pyobj \<Rightarrow> pyobj" where
  "extract_result res0 =
     (let res = unwrap_values res0
      in if \<not> isscalar res
         then (case res of
                 NdArray a \<Rightarrow>
                   if ndim a = 0 then ItemOf a
                   else if ndim a = 1 \<and> shape0 a = 1 then ItemOf a
                   else res
               | _ \<Rightarrow> res)
         else res)"

text \<open>
  The wrapper classes are pandas code. \<open>construct\<close> is \<open>typ(values, index=..., name=...)\<close>;
  the three setters are the \<open>object.__setattr__\<close> calls that re-point a cached wrapper.
  The \<open>shape\<close> of a wrapper follows its values.
\<close>

definition construct :: "pytype \<Rightarrow> ndarray \<Rightarrow> pyobj option \<Rightarrow> pyobj option \<Rightarrow> pyobj" where
  "construct t a index name = Labeled t (NdArray a) index name (Some [shape0 a])"

fun set_values :: "pyobj \<Rightarrow> ndarray \<Rightarrow> pyobj" where
  "set_values (Labeled t v i n sh) a = Labeled t (NdArray a) i n (Some [shape0 a])"
| "set_values obj a = obj"

fun set_index :: "pyobj \<Rightarrow> pyobj option \<Rightarrow> pyobj" where
  "set_index (Labeled t v i n sh) ix = Labeled t v ix n sh"
| "set_index obj ix = obj"

fun set_name :: "pyobj \<Rightarrow> pyobj option \<Rightarrow> pyobj" where
  "set_name (Labeled t v i n sh) name = Labeled t v i name sh"
| "set_name obj name = obj"

section \<open>Reducer\<close>







section \<open>SeriesBinGrouper and SeriesGrouper\<close>

text \<open>
  A Series as the groupers read it: its values and the values of its index (both
  arrays), its own dtype (which differs from that of its values for time zones), its
  name, and the constructors of its class and of the class of its index.
\<close>

record series =
  s_values :: ndarray
  s_index :: ndarray
  s_dtype :: string
  s_name :: "pyobj option"
  s_typ :: pytype
  s_ityp :: pytype

text \<open>\<open>_BaseGrouper._check_dummy\<close>\<close>

definition check_dummy ::
  "(ndarray \<Rightarrow> int) \<Rightarrow> ndarray \<Rightarrow> series \<Rightarrow> error + ndarray \<times> ndarray" where
  "check_dummy alloc arr dummy =
     (let vals = s_values dummy
      in if s_dtype dummy \<noteq> dtype arr \<and> dtype vals \<noteq> dtype arr
         then Inl (ValueError ''Dummy array must be same dtype'')
         else
           let vals' = (if \<not> contiguous vals then array_copy alloc vals else vals);
               index = s_index dummy;
               index' = (if \<not> contiguous index then array_copy alloc index else index)
           in Inr (vals', index'))"

record bin_grouper =
  bg_arr :: ndarray
  bg_index :: ndarray
  bg_dummy_arr :: ndarray
  bg_dummy_index :: ndarray
  bg_bins :: "int list"
  bg_typ :: pytype
  bg_ityp :: pytype
  bg_name :: "pyobj option"
  bg_ngroups :: nat

text \<open>
  \<open>SeriesBinGrouper.__init__\<close>; \<open>len(series)\<close> is the length of its values.
\<close>

definition SeriesBinGrouper ::
  "(ndarray \<Rightarrow> int) \<Rightarrow> series \<Rightarrow> int list \<Rightarrow> series option \<Rightarrow> error + bin_grouper" where
  "SeriesBinGrouper alloc ser bins dummy_opt =
     (case dummy_opt of
        None \<Rightarrow> Inl AssertionError
      | Some dummy \<Rightarrow>
          let vals = s_values ser;
              vals' = (if \<not> contiguous vals then array_copy alloc vals else vals)
          in case check_dummy alloc vals' dummy of
               Inl e \<Rightarrow> Inl e
             | Inr (dummy_arr, dummy_index) \<Rightarrow>
                 Inr \<lparr> bg_arr = vals', bg_index = s_index ser,
                       bg_dummy_arr = dummy_arr, bg_dummy_index = dummy_index,
                       bg_bins = bins, bg_typ = s_typ ser, bg_ityp = s_ityp ser,
                       bg_name = s_name ser,
                       bg_ngroups =
                         (if length bins > 0 \<and> last bins = shape0 (s_values ser)
                          then length bins else length bins + 1) \<rparr>)"

text \<open>
  The lines of \<open>SeriesBinGrouper.get_result\<close> that fill \<open>counts\<close>, before any slider
  exists.
\<close>

definition counts_body :: "bin_grouper \<Rightarrow> nat \<Rightarrow> int list \<Rightarrow> int list step" where
  "counts_body g i counts =
     (if i = bg_ngroups g - 1
      then (case getitem (bg_bins g) (i - 1) of
              Inl e \<Rightarrow> Raise e counts
            | Inr b \<Rightarrow> Next (counts[i := shape0 (bg_arr g) - b]))
      else (case getitem (bg_bins g) i of
              Inl e \<Rightarrow> Raise e counts
            | Inr b \<Rightarrow>
                (case getitem (bg_bins g) (i - 1) of
                   Inl e \<Rightarrow> Raise e counts
                 | Inr b' \<Rightarrow> Next (counts[i := b - b']))))"

definition bin_counts :: "bin_grouper \<Rightarrow> error + int list" where
  "bin_counts g =
     (let counts = replicate (bg_ngroups g) 0
      in if bg_ngroups g > 0
         then (case getitem (bg_bins g) 0 of
                 Inl e \<Rightarrow> Inl e
               | Inr b \<Rightarrow>
                   (case for_loop (counts_body g) [1..<bg_ngroups g] (counts[0 := b]) of
                      (counts', None) \<Rightarrow> Inr counts'
                    | (counts', Some e) \<Rightarrow> Inl e))
         else Inr counts)"

text \<open>
  The variables of the two grouping loops. \<open>gs_cached\<close> holds \<open>cached_ityp\<close> and
  \<open>cached_typ\<close> once they exist.
\<close>

record group_state =
  gs_vslider :: slider
  gs_islider :: slider
  gs_counts :: "int list"
  gs_result :: "pyobj option list option"
  gs_initialized :: bool
  gs_group_size :: int
  gs_cached :: "(pyobj \<times> pyobj) option"

text \<open>
  The lines that both loops share, from \<open>islider.set_length(group_size)\<close> to the creation
  of \<open>result\<close>: the callback runs on the cached Series, re-pointed at the current group.
\<close>

definition call_group ::
  "pytype \<Rightarrow> pytype \<Rightarrow> pyobj option \<Rightarrow> reduce_callback \<Rightarrow> nat \<Rightarrow> nat \<Rightarrow> group_state
    \<Rightarrow> (error + pyobj) \<times> group_state" where
  "call_group typ ityp name f i ngroups st =
     (let isl = set_length (gs_islider st) (gs_group_size st);
          vsl = set_length (gs_vslider st) (gs_group_size st);
          (cached_ityp, cached_typ) =
            (case gs_cached st of
               None \<Rightarrow>
                 (let it = construct ityp (sl_buf isl) None None
                  in (it, construct typ (sl_buf vsl) (Some it) name))
             | Some (it0, c) \<Rightarrow>
                 (let it = set_values it0 (sl_buf isl)
                  in (it, set_name (set_index (set_values c (sl_buf vsl)) (Some it)) name)));
          st1 = st\<lparr> gs_islider := isl, gs_vslider := vsl,
                    gs_cached := Some (cached_ityp, cached_typ) \<rparr>
      in case f i cached_typ of
           Inl e \<Rightarrow> (Inl e, st1)
         | Inr res0 \<Rightarrow>
             let res = extract_result res0
             in if \<not> gs_initialized st1
                then (case get_result_array res ngroups (shape0 (sl_buf vsl)) of
                        Inl e \<Rightarrow> (Inl e, st1\<lparr> gs_initialized := True \<rparr>)
                      | Inr a \<Rightarrow>
                          (Inr res, st1\<lparr> gs_initialized := True, gs_result := Some a \<rparr>))
                else (Inr res, st1))"

text \<open>The body of \<open>for i in range(self.ngroups)\<close> in \<open>SeriesBinGrouper.get_result\<close>.\<close>

definition bin_body :: "bin_grouper \<Rightarrow> reduce_callback \<Rightarrow> nat \<Rightarrow> group_state \<Rightarrow> group_state step" where
  "bin_body g f i st =
     (case getitem (gs_counts st) i of
        Inl e \<Rightarrow> Raise e st
      | Inr group_size \<Rightarrow>
          (case call_group (bg_typ g) (bg_ityp g) (bg_name g) f i (bg_ngroups g)
                  (st\<lparr> gs_group_size := group_size \<rparr>) of
             (Inl e, st1) \<Rightarrow> Raise e st1
           | (Inr res, st1) \<Rightarrow>
               (case gs_result st1 of
                  None \<Rightarrow> Raise UnboundLocalError st1
                | Some result \<Rightarrow>
                    (case setitem result (int i) (Some res) of
                       Inl e \<Rightarrow> Raise e st1
                     | Inr result' \<Rightarrow>
                         Next (st1\<lparr> gs_result := Some result',
                                    gs_islider := advance (gs_islider st1) group_size,
                                    gs_vslider := advance (gs_vslider st1) group_size \<rparr>)))))"

text \<open>
  What a \<open>get_result\<close> of a grouper returns: the result array and the counts, or the
  exception; then the two dummy arrays (values, index) as the call leaves them.
\<close>

type_synonym grouper_outcome =
  "(error + pyobj option list \<times> int list) \<times> ndarray \<times> ndarray"

definition SeriesBinGrouper_get_result ::
  "(ndarray \<Rightarrow> int) \<Rightarrow> (pyobj option list \<Rightarrow> pyobj option list) \<Rightarrow> bin_grouper
    \<Rightarrow> reduce_callback \<Rightarrow> grouper_outcome" where
  "SeriesBinGrouper_get_result alloc convert g f =
     (case bin_counts g of
        Inl e \<Rightarrow> (Inl e, bg_dummy_arr g, bg_dummy_index g)
      | Inr counts \<Rightarrow>
     (case Slider alloc (bg_arr g) (bg_dummy_arr g) of
        Inl e \<Rightarrow> (Inl e, bg_dummy_arr g, bg_dummy_index g)
      | Inr vslider \<Rightarrow>
     (case Slider alloc (bg_index g) (bg_dummy_index g) of
        Inl e \<Rightarrow> (Inl e, sl_buf vslider, bg_dummy_index g)
      | Inr islider \<Rightarrow>
          let st0 = \<lparr> gs_vslider = vslider, gs_islider = islider, gs_counts = counts,
                      gs_result = None, gs_initialized = False, gs_group_size = 0,
                      gs_cached = None \<rparr>;
              (st, exc) = for_loop (bin_body g f) [0..<bg_ngroups g] st0;
              ibuf = sl_buf (reset (gs_islider st));
              vbuf = sl_buf (reset (gs_vslider st))
          in case exc of
               Some e \<Rightarrow> (Inl e, vbuf, ibuf)
             | None \<Rightarrow>
                 (case gs_result st of
                    None \<Rightarrow> (Inl UnboundLocalError, vbuf, ibuf)
                  | Some result \<Rightarrow> (Inr (convert result, gs_counts st), vbuf, ibuf)))))"

record label_grouper =
  sg_arr :: ndarray
  sg_index :: ndarray
  sg_dummy_arr :: ndarray
  sg_dummy_index :: ndarray
  sg_labels :: "int list"
  sg_typ :: pytype
  sg_ityp :: pytype
  sg_name :: "pyobj option"
  sg_ngroups :: nat

text \<open>\<open>SeriesGrouper.__init__\<close>\<close>

definition SeriesGrouper ::
  "(ndarray \<Rightarrow> int) \<Rightarrow> series \<Rightarrow> int list \<Rightarrow> nat \<Rightarrow> series option
    \<Rightarrow> error + label_grouper" where
  "SeriesGrouper alloc ser labels ngroups dummy_opt =
     (case dummy_opt of
        None \<Rightarrow> Inl AssertionError
      | Some dummy \<Rightarrow>
          let vals = s_values ser;
              vals' = (if \<not> contiguous vals then array_copy alloc vals else vals)
          in case check_dummy alloc vals' dummy of
               Inl e \<Rightarrow> Inl e
             | Inr (dummy_arr, dummy_index) \<Rightarrow>
                 Inr \<lparr> sg_arr = vals', sg_index = s_index ser,
                       sg_dummy_arr = dummy_arr, sg_dummy_index = dummy_index,
                       sg_labels = labels, sg_typ = s_typ ser, sg_ityp = s_ityp ser,
                       sg_name = s_name ser, sg_ngroups = ngroups \<rparr>)"

text \<open>
  The body of \<open>for i in range(n)\<close> in \<open>SeriesGrouper.get_result\<close>, with \<open>n = len(self.arr)\<close>.
\<close>

definition label_body ::
  "label_grouper \<Rightarrow> reduce_callback \<Rightarrow> nat \<Rightarrow> nat \<Rightarrow> group_state \<Rightarrow> group_state step" where
  "label_body g f n i st0 =
     (let st = st0\<lparr> gs_group_size := gs_group_size st0 + 1 \<rparr>
      in case getitem (sg_labels g) i of
           Inl e \<Rightarrow> Raise e st
         | Inr lab \<Rightarrow>
             (case (if i = n - 1 then Inr True
                    else (case getitem (sg_labels g) (i + 1) of
                            Inl e \<Rightarrow> Inl e
                          | Inr nxt \<Rightarrow> Inr (lab \<noteq> nxt))) of
                Inl e \<Rightarrow> Raise e st
              | Inr False \<Rightarrow> Next st
              | Inr True \<Rightarrow>
                  if lab = - 1
                  then Next (st\<lparr> gs_islider := advance (gs_islider st) (gs_group_size st),
                                 gs_vslider := advance (gs_vslider st) (gs_group_size st),
                                 gs_group_size := 0 \<rparr>)
                  else
                    (case call_group (sg_typ g) (sg_ityp g) (sg_name g) f i (sg_ngroups g) st of
                       (Inl e, st1) \<Rightarrow> Raise e st1
                     | (Inr res, st1) \<Rightarrow>
                         (case gs_result st1 of
                            None \<Rightarrow> Raise UnboundLocalError st1
                          | Some result \<Rightarrow>
                              (case setitem result lab (Some res) of
                                 Inl e \<Rightarrow> Raise e st1
                               | Inr result' \<Rightarrow>
                                   (case setitem (gs_counts st1) lab (gs_group_size st1) of
                                      Inl e \<Rightarrow> Raise e (st1\<lparr> gs_result := Some result' \<rparr>)
                                    | Inr counts' \<Rightarrow>
                                        Next (st1\<lparr> gs_result := Some result',
                                                   gs_counts := counts',
                                                   gs_islider := advance (gs_islider st1) (gs_group_size st1),
                                                   gs_vslider := advance (gs_vslider st1) (gs_group_size st1),
                                                   gs_group_size := 0 \<rparr>)))))))"

definition SeriesGrouper_get_result ::
  "(ndarray \<Rightarrow> int) \<Rightarrow> (pyobj option list \<Rightarrow> pyobj option list) \<Rightarrow> label_grouper
    \<Rightarrow> reduce_callback \<Rightarrow> grouper_outcome" where
  "SeriesGrouper_get_result alloc convert g f =
     (let counts = replicate (sg_ngroups g) 0;
          n = nat (shape0 (sg_arr g))
      in
     (case Slider alloc (sg_arr g) (sg_dummy_arr g) of
        Inl e \<Rightarrow> (Inl e, sg_dummy_arr g, sg_dummy_index g)
      | Inr vslider \<Rightarrow>
     (case Slider alloc (sg_index g) (sg_dummy_index g) of
        Inl e \<Rightarrow> (Inl e, sl_buf vslider, sg_dummy_index g)
      | Inr islider \<Rightarrow>
          let st0 = \<lparr> gs_vslider = vslider, gs_islider = islider, gs_counts = counts,
                      gs_result = None, gs_initialized = False, gs_group_size = 0,
                      gs_cached = None \<rparr>;
              (st, exc) = for_loop (label_body g f n) [0..<n] st0;
              ibuf = sl_buf (reset (gs_islider st));
              vbuf = sl_buf (reset (gs_vslider st))
          in case exc of
               Some e \<Rightarrow> (Inl e, vbuf, ibuf)
             | None \<Rightarrow>
                 (case gs_result st of
                    None \<Rightarrow> (Inl (ValueError ''No result.''), vbuf, ibuf)
                  | Some result \<Rightarrow> (Inr (convert result, gs_counts st), vbuf, ibuf)))))"

section \<open>tslib: values, collaborators and the state of a conversion pass\<close>

text \<open>\<open>NPY_NAT\<close>, the smallest 64-bit integer, stands for not-a-time.\<close>

definition NPY_NAT :: int where
  "NPY_NAT = - (2 ^ 63)"

definition in_int64 :: "int \<Rightarrow> bool" where
  "in_int64 v = (- (2 ^ 63) \<le> v \<and> v < 2 ^ 63)"

record npy_datetimestruct =
  dts_year :: int
  dts_month :: int
  dts_day :: int
  dts_hour :: int
  dts_min :: int
  dts_sec :: int
  dts_us :: int
  dts_ps :: int
  dts_as :: int

text \<open>A time zone, as far as the module builds or compares one.\<close>

datatype tzinfo = UTC | FixedOffset rat | OtherZone string

text \<open>
  A \<open>datetime.datetime\<close>: its wall-clock fields, its \<open>utcoffset()\<close> in whole seconds
  (\<open>None\<close> for a naive one, whose \<open>tzinfo\<close> is \<open>None\<close>), and its nanoseconds when it is a
  pandas Timestamp (\<open>isinstance(val, _Timestamp)\<close>).
\<close>

record pydatetime =
  dt_wall :: npy_datetimestruct
  dt_offset :: "int option"
  dt_nanosecond :: "int option"

text \<open>A Python float that is not NaN.\<close>

datatype pyfloat = Finite real | PosInf | NegInf

text \<open>
  The elements of an object array, by the category that \<open>array_to_datetime\<close> sorts them
  into: the nulls (\<open>checknull_with_nat\<close>), datetimes, dates, \<open>np.datetime64\<close> scalars
  (value and unit), integers, floats, strings and everything else (by type name).
\<close>

datatype pyval =
    PyNone
  | PyNaT
  | PyNaN
  | PyDatetime pydatetime
  | PyDate int int int
  | PyDatetime64 int string
  | PyInt int
  | PyFloat pyfloat
  | PyStr string
  | PyOther string

fun checknull_with_nat :: "pyval \<Rightarrow> bool" where
  "checknull_with_nat PyNone = True"
| "checknull_with_nat PyNaT = True"
| "checknull_with_nat PyNaN = True"
| "checknull_with_nat _ = False"

text \<open>\<open>is_integer_object(val) or is_float_object(val)\<close>; NaN is a float.\<close>

fun is_number :: "pyval \<Rightarrow> bool" where
  "is_number (PyInt _) = True"
| "is_number (PyFloat _) = True"
| "is_number PyNaN = True"
| "is_number _ = False"

fun is_str :: "pyval \<Rightarrow> bool" where
  "is_str (PyStr _) = True"
| "is_str _ = False"

text \<open>\<open>except (ValueError, OverflowError)\<close>: OutOfBoundsDatetime is a ValueError.\<close>

fun is_ValueError_or_Overflow :: "error \<Rightarrow> bool" where
  "is_ValueError_or_Overflow (ValueError _) = True"
| "is_ValueError_or_Overflow OutOfBoundsDatetime = True"
| "is_ValueError_or_Overflow OverflowError = True"
| "is_ValueError_or_Overflow _ = False"

text \<open>
  The functions that tslib imports from \<open>pandas._libs.tslibs\<close>, NumPy and dateutil, taken
  as parameters. Where the source catches an exception of theirs, the function returns it
  as a value (\<open>None\<close>, \<open>False\<close> or \<open>Inl\<close>). \<open>string_to_dts\<close> gets the current \<open>out_local\<close> and
  \<open>out_tzoffset\<close> and returns the failure flag, the struct and their new values. The two
  clocks are indexed by the position of the element that reads them.
\<close>

record tslibs =
  nat_strings :: "string list"
  string_to_dts :: "string \<Rightarrow> int \<Rightarrow> int \<Rightarrow> bool \<times> npy_datetimestruct \<times> int \<times> int"
  dtstruct_to_dt64 :: "npy_datetimestruct \<Rightarrow> int"
  dt64_to_dtstruct :: "int \<Rightarrow> npy_datetimestruct"
  check_dts_bounds :: "npy_datetimestruct \<Rightarrow> bool"
  parse_datetime_string :: "string \<Rightarrow> bool \<Rightarrow> bool \<Rightarrow> error + pydatetime"
  convert_datetime_to_tsobject :: "pydatetime \<Rightarrow> int option"
  pydatetime_to_dt64 :: "pydatetime \<Rightarrow> int \<times> npy_datetimestruct"
  pydate_to_dt64 :: "int \<Rightarrow> int \<Rightarrow> int \<Rightarrow> int \<times> npy_datetimestruct"
  get_datetime64_nanos :: "int \<Rightarrow> string \<Rightarrow> int option"
  get_datetime64_value :: "int \<Rightarrow> string \<Rightarrow> int"
  datetime64_item :: "int \<Rightarrow> string \<Rightarrow> pyval"
  tz_convert_single :: "int \<Rightarrow> tzinfo \<Rightarrow> tzinfo \<Rightarrow> int"
  cast_from_unit :: "pyval \<Rightarrow> string \<Rightarrow> int option"
  float_to_int64 :: "pyfloat \<Rightarrow> int"
  utcnow_value :: "nat \<Rightarrow> int"
  today_value :: "nat \<Rightarrow> int"
  timestamp_str :: "int \<Rightarrow> tzinfo option \<Rightarrow> string"
  timestamp_strftime :: "int \<Rightarrow> tzinfo option \<Rightarrow> string \<Rightarrow> string option"

text \<open>
  An entry of the Python set \<open>out_tzoffset_vals\<close>: an offset in whole seconds, or the marker
  \<open>'naive'\<close>. The set is a list without duplicates (\<open>List.insert\<close>).
\<close>

datatype offset_entry = Offset int | Naive

record pass_state =
  iresult :: "int list"
  seen_integer :: bool
  seen_string :: bool
  seen_datetime :: bool
  seen_datetime_offset :: bool
  out_local :: int
  out_tzoffset :: int
  out_tzoffset_vals :: "offset_entry list"
  returned_values :: bool

text \<open>The three error policies, read off the string \<open>errors\<close> as the source does.\<close>

definition is_raise :: "string \<Rightarrow> bool" where
  "is_raise errors = (errors = ''raise'')"

definition is_ignore :: "string \<Rightarrow> bool" where
  "is_ignore errors = (errors = ''ignore'')"

definition is_coerce :: "string \<Rightarrow> bool" where
  "is_coerce errors = (errors = ''coerce'')"

text \<open>\<open>iresult[i] = v\<close>\<close>

definition set_result :: "pass_state \<Rightarrow> nat \<Rightarrow> int \<Rightarrow> pass_state" where
  "set_result st i v = st\<lparr> iresult := (iresult st)[i := v] \<rparr>"

text \<open>\<open>_parse_today_now\<close>: the value it stores, if it recognises the string.\<close>

definition parse_today_now :: "tslibs \<Rightarrow> nat \<Rightarrow> string \<Rightarrow> int option" where
  "parse_today_now E i val =
     (if val = ''now'' then Some (utcnow_value E i)
      else if val = ''today'' then Some (today_value E i)
      else None)"

text \<open>
  What the body of the inner \<open>try\<close> does with one element: it goes on, raises
  OutOfBoundsDatetime (caught by the inner handler), raises something else, or returns
  \<open>values\<close> from the function.
\<close>

datatype inner = Cont pass_state | OutOfBounds pass_state | Fail error | Return_values

section \<open>tslib: \<open>array_to_datetime\<close>\<close>

text \<open>A value stored into an \<open>int64_t\<close> slot by C arithmetic wraps around.\<close>

definition to_int64 :: "int \<Rightarrow> int" where
  "to_int64 v = (v + 2 ^ 63) mod 2 ^ 64 - 2 ^ 63"

text \<open>
  The branch for an integer or a float. \<open>iresult[i] = val\<close> converts a Python integer to
  \<open>int64_t\<close>, which raises OverflowError outside the range, and a float by a C cast.
\<close>

definition convert_number :: "tslibs \<Rightarrow> string \<Rightarrow> nat \<Rightarrow> pyval \<Rightarrow> pass_state \<Rightarrow> inner" where
  "convert_number E errors i val st =
     (let st1 = st\<lparr> seen_integer := True \<rparr> in
      if val = PyInt NPY_NAT \<or> val = PyFloat (Finite (real_of_int NPY_NAT)) then
        Cont (set_result st1 i NPY_NAT)
      else if is_raise errors \<or> is_ignore errors then
        (case val of
           PyInt v \<Rightarrow> if in_int64 v then Cont (set_result st1 i v) else Fail OverflowError
         | PyFloat x \<Rightarrow> Cont (set_result st1 i (float_to_int64 E x))
         | _ \<Rightarrow> Fail (TypeError ''an integer is required''))
      else
        (case cast_from_unit E val ''ns'' of
           Some v \<Rightarrow> Cont (set_result st1 i v)
         | None \<Rightarrow> Cont (set_result st1 i NPY_NAT)))"

text \<open>\<open>out_tzoffset_vals.add(x)\<close>\<close>

definition add_offset :: "offset_entry \<Rightarrow> pass_state \<Rightarrow> pass_state" where
  "add_offset x st = st\<lparr> out_tzoffset_vals := List.insert x (out_tzoffset_vals st) \<rparr>"

text \<open>
  The branch for a string that ISO 8601 parsing rejected: \<open>'now'\<close> and \<open>'today'\<close>, then the
  exit for \<open>require_iso8601\<close>, then the dateutil parser.
\<close>

definition convert_non_iso ::
  "tslibs \<Rightarrow> string \<Rightarrow> bool \<Rightarrow> bool \<Rightarrow> bool \<Rightarrow> nat \<Rightarrow> string \<Rightarrow> pass_state \<Rightarrow> inner" where
  "convert_non_iso E errors dayfirst yearfirst require_iso8601 i val st =
     (case parse_today_now E i val of
        Some v \<Rightarrow> Cont (set_result st i v)
      | None \<Rightarrow>
          if require_iso8601 then
            (if is_coerce errors then Cont (set_result st i NPY_NAT)
             else if is_raise errors then
               Fail (ValueError (''time data '' @ val @ '' doesn't match format specified''))
             else Return_values)
          else
            (case parse_datetime_string E val dayfirst yearfirst of
               Inl e \<Rightarrow>
                 if is_ValueError_or_Overflow e then
                   (if is_coerce errors then Cont (set_result st i NPY_NAT)
                    else Fail (TypeError ''invalid string coercion to datetime''))
                 else Fail e
             | Inr py_dt \<Rightarrow>
                 let st1 = (case dt_offset py_dt of
                              Some tz \<Rightarrow> add_offset (Offset tz) (st\<lparr> seen_datetime_offset := True \<rparr>)
                            | None \<Rightarrow> add_offset Naive st)
                 in (case convert_datetime_to_tsobject E py_dt of
                       None \<Rightarrow> OutOfBounds st1
                     | Some v \<Rightarrow> Cont (set_result st1 i v))))"

text \<open>The branch for a string that ISO 8601 parsing accepted, with the struct it filled.\<close>

definition convert_iso :: "tslibs \<Rightarrow> nat \<Rightarrow> npy_datetimestruct \<Rightarrow> pass_state \<Rightarrow> inner" where
  "convert_iso E i dts st =
     (let v = dtstruct_to_dt64 E dts;
          (st1, v1) =
            (if out_local st = 1 then
               (add_offset (Offset (out_tzoffset st * 60)) (st\<lparr> seen_datetime_offset := True \<rparr>)
                  \<lparr> out_local := 0, out_tzoffset := 0 \<rparr>,
                tz_convert_single E v (FixedOffset (of_int (out_tzoffset st))) UTC)
             else (add_offset Naive st, v));
          st2 = set_result st1 i v1
      in if check_dts_bounds E dts then Cont st2 else OutOfBounds st2)"

definition convert_string ::
  "tslibs \<Rightarrow> string \<Rightarrow> bool \<Rightarrow> bool \<Rightarrow> bool \<Rightarrow> nat \<Rightarrow> string \<Rightarrow> pass_state \<Rightarrow> inner" where
  "convert_string E errors dayfirst yearfirst require_iso8601 i val st =
     (let st1 = st\<lparr> seen_string := True \<rparr> in
      if length val = 0 \<or> val \<in> set (nat_strings E) then Cont (set_result st1 i NPY_NAT)
      else
        (case string_to_dts E val (out_local st1) (out_tzoffset st1) of
           (string_to_dts_failed, dts, ol, oz) \<Rightarrow>
             let st2 = st1\<lparr> out_local := ol, out_tzoffset := oz \<rparr> in
             if string_to_dts_failed then
               convert_non_iso E errors dayfirst yearfirst require_iso8601 i val st2
             else convert_iso E i dts st2))"

text \<open>The branch for a \<open>datetime.datetime\<close>.\<close>

definition convert_pydatetime :: "tslibs \<Rightarrow> bool \<Rightarrow> nat \<Rightarrow> pydatetime \<Rightarrow> pass_state \<Rightarrow> inner" where
  "convert_pydatetime E utc_convert i d st =
     (let st1 = st\<lparr> seen_datetime := True \<rparr> in
      if dt_offset d \<noteq> None then
        (if utc_convert then
           (case convert_datetime_to_tsobject E d of
              None \<Rightarrow> OutOfBounds st1
            | Some v \<Rightarrow> Cont (set_result st1 i v))
         else Fail (ValueError
           ''Tz-aware datetime.datetime cannot be converted to datetime64 unless utc=True''))
      else
        (case pydatetime_to_dt64 E d of
           (v, dts) \<Rightarrow>
             let v1 = (case dt_nanosecond d of Some ns \<Rightarrow> to_int64 (v + ns) | None \<Rightarrow> v);
                 st2 = set_result st1 i v1
             in if check_dts_bounds E dts then Cont st2 else OutOfBounds st2))"

text \<open>The body of the inner \<open>try\<close> (lines 532 to 659), by the category of the element.\<close>

definition convert_value ::
  "tslibs \<Rightarrow> string \<Rightarrow> bool \<Rightarrow> bool \<Rightarrow> bool \<Rightarrow> bool \<Rightarrow> nat \<Rightarrow> pyval \<Rightarrow> pass_state \<Rightarrow> inner" where
  "convert_value E errors dayfirst yearfirst utc_convert require_iso8601 i val st =
     (if checknull_with_nat val then Cont (set_result st i NPY_NAT)
      else case val of
        PyDatetime d \<Rightarrow> convert_pydatetime E utc_convert i d st
      | PyDate y m d \<Rightarrow>
          (case pydate_to_dt64 E y m d of
             (v, dts) \<Rightarrow>
               let st1 = set_result (st\<lparr> seen_datetime := True \<rparr>) i v
               in if check_dts_bounds E dts then Cont st1 else OutOfBounds st1)
      | PyDatetime64 v u \<Rightarrow>
          (let st1 = st\<lparr> seen_datetime := True \<rparr> in
           case get_datetime64_nanos E v u of
             None \<Rightarrow> OutOfBounds st1
           | Some x \<Rightarrow> Cont (set_result st1 i x))
      | PyInt v \<Rightarrow> convert_number E errors i val st
      | PyFloat x \<Rightarrow> convert_number E errors i val st
      | PyStr s \<Rightarrow> convert_string E errors dayfirst yearfirst require_iso8601 i s st
      | _ \<Rightarrow>
          if is_coerce errors then Cont (set_result st i NPY_NAT)
          else Fail (TypeError ''is not convertible to datetime''))"

text \<open>
  One turn of the loop: the inner \<open>try\<close> with its handler for OutOfBoundsDatetime. A
  \<open>return values, tz_out\<close> leaves the loop with \<open>returned_values\<close> set.
\<close>

definition convert_element ::
  "tslibs \<Rightarrow> pyval list \<Rightarrow> string \<Rightarrow> bool \<Rightarrow> bool \<Rightarrow> bool \<Rightarrow> bool \<Rightarrow> nat \<Rightarrow> pass_state
     \<Rightarrow> pass_state step" where
  "convert_element E values errors dayfirst yearfirst utc_convert require_iso8601 i st =
     (let val = values ! i in
      case convert_value E errors dayfirst yearfirst utc_convert require_iso8601 i val st of
        Cont st1 \<Rightarrow> Next st1
      | Fail e \<Rightarrow> Raise e st
      | Return_values \<Rightarrow> Break (st\<lparr> returned_values := True \<rparr>)
      | OutOfBounds st1 \<Rightarrow>
          if is_coerce errors then Next (set_result st1 i NPY_NAT)
          else if require_iso8601 \<and> is_str val then
            (if is_raise errors then Raise OutOfBoundsDatetime st1
             else if is_ignore errors then Break (st1\<lparr> returned_values := True \<rparr>)
             else Raise AssertionError st1)
          else Raise OutOfBoundsDatetime st1)"

text \<open>
  The state before the loop. \<open>np.empty\<close> leaves \<open>iresult\<close> uninitialised; every turn that
  goes on has written its entry, so the zeros here are never returned.
\<close>

definition initial_pass :: "nat \<Rightarrow> pass_state" where
  "initial_pass n =
     \<lparr> iresult = replicate n 0, seen_integer = False, seen_string = False,
       seen_datetime = False, seen_datetime_offset = False, out_local = 0,
       out_tzoffset = 0, out_tzoffset_vals = [], returned_values = False \<rparr>"

text \<open>The loop of lines 528 to 677: the final state and the exception that ended it.\<close>

definition conversion_pass ::
  "tslibs \<Rightarrow> pyval list \<Rightarrow> string \<Rightarrow> bool \<Rightarrow> bool \<Rightarrow> bool \<Rightarrow> bool \<Rightarrow> pass_state \<times> error option" where
  "conversion_pass E values errors dayfirst yearfirst utc_convert require_iso8601 =
     for_loop (convert_element E values errors dayfirst yearfirst utc_convert require_iso8601)
       [0..<length values] (initial_pass (length values))"

text \<open>What the conversions return: a \<open>datetime64[ns]\<close> array by its int64 view, or an
  object array.\<close>

datatype dt_array = Datetime64 "int list" | Objects "pyval list"

definition ignore_errors_out_of_bounds_fallback :: "tslibs \<Rightarrow> pyval list \<Rightarrow> pyval list" where
  "ignore_errors_out_of_bounds_fallback E values =
     map (\<lambda>val.
       if checknull_with_nat val then (if val = PyNaN then PyNaN else PyNaT)
       else case val of
         PyDatetime64 v u \<Rightarrow>
           if get_datetime64_value E v u = NPY_NAT then PyNaT else datetime64_item E v u
       | _ \<Rightarrow> val) values"

record object_state =
  oresult :: "pyval list"
  returned_input :: bool

text \<open>
  One turn of the loop of \<open>array_to_datetime_object\<close>. The bare \<open>raise\<close> of line 820
  re-raises what was caught; the one of line 824 has nothing to re-raise, which is a
  RuntimeError.
\<close>

definition object_element ::
  "tslibs \<Rightarrow> pyval list \<Rightarrow> string \<Rightarrow> bool \<Rightarrow> bool \<Rightarrow> nat \<Rightarrow> object_state \<Rightarrow> object_state step" where
  "object_element E values errors dayfirst yearfirst i st =
     (let val = values ! i;
          handler = (\<lambda>e st1.
            if is_ValueError_or_Overflow e then
              (if is_coerce errors then Next (st1\<lparr> oresult := (oresult st1)[i := PyNaT] \<rparr>)
               else if is_raise errors then Raise e st1
               else Break (st1\<lparr> returned_input := True \<rparr>))
            else Raise e st1)
      in case val of
        PyDatetime d \<Rightarrow> Next (st\<lparr> oresult := (oresult st)[i := val] \<rparr>)
      | PyStr s \<Rightarrow>
          if length s = 0 \<or> s \<in> set (nat_strings E) then
            Next (st\<lparr> oresult := (oresult st)[i := PyStr ''NaT''] \<rparr>)
          else
            (case parse_datetime_string E s dayfirst yearfirst of
               Inl e \<Rightarrow> handler e st
             | Inr d \<Rightarrow>
                 let st1 = st\<lparr> oresult := (oresult st)[i := PyDatetime d] \<rparr>
                 in if check_dts_bounds E (snd (pydatetime_to_dt64 E d)) then Next st1
                    else handler OutOfBoundsDatetime st1)
      | _ \<Rightarrow>
          if checknull_with_nat val then Next (st\<lparr> oresult := (oresult st)[i := val] \<rparr>)
          else if is_raise errors then Raise RuntimeError st
          else Break (st\<lparr> returned_input := True \<rparr>))"

definition array_to_datetime_object ::
  "tslibs \<Rightarrow> pyval list \<Rightarrow> string \<Rightarrow> bool \<Rightarrow> bool \<Rightarrow> error + dt_array \<times> tzinfo option" where
  "array_to_datetime_object E values errors dayfirst yearfirst =
     (if \<not> (is_raise errors \<or> is_ignore errors \<or> is_coerce errors) then Inl AssertionError
      else
        case for_loop (object_element E values errors dayfirst yearfirst) [0..<length values]
               \<lparr> oresult = replicate (length values) PyNone, returned_input = False \<rparr> of
          (st, Some e) \<Rightarrow> Inl e
        | (st, None) \<Rightarrow>
            if returned_input st then Inr (Objects values, None)
            else Inr (Objects (oresult st), None))"

text \<open>Lines 695 to 698: with \<open>errors='coerce'\<close>, the entries of the numbers become NaT.\<close>

definition coerce_numbers :: "pyval list \<Rightarrow> int list \<Rightarrow> int list" where
  "coerce_numbers values res =
     map (\<lambda>(val, r). if is_number val then NPY_NAT else r) (zip values res)"

text \<open>
  Lines 705 to 719, with the array \<open>result\<close> as it is by then. \<open>pop()\<close> on a one-element
  set gives its element; the marker \<open>'naive'\<close> is a string, which the assignment to the C
  float \<open>tz_offset\<close> rejects with a TypeError. A whole number of seconds of an offset is
  exact in a C float.
\<close>

definition reconcile_offsets ::
  "tslibs \<Rightarrow> pyval list \<Rightarrow> string \<Rightarrow> bool \<Rightarrow> bool \<Rightarrow> bool \<Rightarrow> pass_state \<Rightarrow> int list
     \<Rightarrow> error + dt_array \<times> tzinfo option" where
  "reconcile_offsets E values errors dayfirst yearfirst utc_convert st res =
     (if seen_datetime_offset st \<and> \<not> utc_convert then
        let is_same_offsets = (length (out_tzoffset_vals st) = 1) in
        if \<not> is_same_offsets then array_to_datetime_object E values errors dayfirst yearfirst
        else case hd (out_tzoffset_vals st) of
          Offset tz_offset \<Rightarrow> Inr (Datetime64 res, Some (FixedOffset (of_int tz_offset / 60)))
        | Naive \<Rightarrow> Inl (TypeError ''must be real number, not str'')
      else Inr (Datetime64 res, None))"

text \<open>Lines 689 to 719: what the function does once the loop has run to its end.\<close>

definition after_pass ::
  "tslibs \<Rightarrow> pyval list \<Rightarrow> string \<Rightarrow> bool \<Rightarrow> bool \<Rightarrow> bool \<Rightarrow> pass_state
     \<Rightarrow> error + dt_array \<times> tzinfo option" where
  "after_pass E values errors dayfirst yearfirst utc_convert st =
     (if seen_datetime st \<and> seen_integer st then
        (if is_coerce errors then
           reconcile_offsets E values errors dayfirst yearfirst utc_convert st
             (coerce_numbers values (iresult st))
         else if is_raise errors then
           Inl (ValueError ''mixed datetimes and integers in passed array'')
         else array_to_datetime_object E values errors dayfirst yearfirst)
      else reconcile_offsets E values errors dayfirst yearfirst utc_convert st (iresult st))"

definition array_to_datetime ::
  "tslibs \<Rightarrow> pyval list \<Rightarrow> string \<Rightarrow> bool \<Rightarrow> bool \<Rightarrow> bool \<Rightarrow> bool
     \<Rightarrow> error + dt_array \<times> tzinfo option" where
  "array_to_datetime E values errors dayfirst yearfirst utc_convert require_iso8601 =
     (if \<not> (is_raise errors \<or> is_ignore errors \<or> is_coerce errors) then Inl AssertionError
      else
        case conversion_pass E values errors dayfirst yearfirst utc_convert require_iso8601 of
          (st, Some OutOfBoundsDatetime) \<Rightarrow>
            if is_raise errors then Inl OutOfBoundsDatetime
            else Inr (Objects (ignore_errors_out_of_bounds_fallback E values), None)
        | (st, Some (TypeError msg)) \<Rightarrow>
            array_to_datetime_object E values errors dayfirst yearfirst
        | (st, Some e) \<Rightarrow> Inl e
        | (st, None) \<Rightarrow>
            if returned_values st then Inr (Objects values, None)
            else after_pass E values errors dayfirst yearfirst utc_convert st)"

section \<open>tslib: \<open>array_with_unit_to_datetime\<close>\<close>

text \<open>
  An array by its dtype: one of an integer dtype (\<open>issubclass(values.dtype.type,
  np.integer)\<close>) with its elements as numbers, or one of any other dtype with its elements
  as the Python objects that \<open>values.astype(object)\<close> gives.
\<close>

datatype np_values = IntegerArray "int list" | OtherArray "pyval list"

text \<open>\<open>values.astype('M8[ns]')\<close> on an integer array keeps the 64-bit pattern.\<close>

definition astype_M8 :: "int list \<Rightarrow> int list" where
  "astype_M8 xs = map to_int64 xs"

text \<open>
  Lines 319 to 338. The conversion for a unit other than \<open>'ns'\<close> (lines 340 to 459) is the
  parameter \<open>other_unit\<close>.
\<close>

definition array_with_unit_to_datetime ::
  "tslibs \<Rightarrow> (np_values \<Rightarrow> string \<Rightarrow> string \<Rightarrow> error + dt_array \<times> tzinfo option)
     \<Rightarrow> np_values \<Rightarrow> string \<Rightarrow> string \<Rightarrow> error + dt_array \<times> tzinfo option" where
  "array_with_unit_to_datetime E other_unit values unit errors =
     (if \<not> (is_ignore errors \<or> is_coerce errors \<or> is_raise errors) then Inl AssertionError
      else if unit = ''ns'' then
        (case values of
           IntegerArray xs \<Rightarrow> Inr (Datetime64 (astype_M8 xs), None)
         | OtherArray objs \<Rightarrow> array_to_datetime E objs errors False False False False)
      else other_unit values unit errors)"

section \<open>tslib: \<open>format_array_from_datetime\<close>\<close>










section \<open>Notions used in the statements and proofs\<close>

definition named :: "block_slider \<Rightarrow> string option \<Rightarrow> block_slider" where
  "named s x = s\<lparr> bs_dummy := (bs_dummy s)\<lparr> frame_name := x \<rparr> \<rparr>"

definition sim :: "block_slider \<Rightarrow> block_slider \<Rightarrow> bool" where
  "sim sl0 s = (\<forall>nm a b. window_at s nm a b = window_at sl0 nm a b)"

definition loop_ok ::
  "frame_callback \<Rightarrow> (nat \<Rightarrow> frame) \<Rightarrow> apply_state \<Rightarrow> bool" where
  "loop_ok f W st =
     ((\<forall>j<length (ap_results st). \<exists>p. f j (W j) = Inr p \<and> ap_results st ! j = store (W j) p)
      \<and> (ap_mutated st \<longleftrightarrow>
           (\<exists>j<length (ap_results st). \<exists>p. f j (W j) = Inr p \<and> index_differs (W j) p)))"

definition take_no_rows :: "frame \<Rightarrow> frame" where
  "take_no_rows fr =
     fr\<lparr> frame_id := frame_id fr + 1, index_id := index_id fr + 1,
         index_data := (index_data fr)\<lparr> shape0 := 0 \<rparr>,
         blocks := map (\<lambda>b. b\<lparr> bshape1 := 0 \<rparr>) (blocks fr) \<rparr>"

definition demo_frame :: frame where
  "demo_frame =
     \<lparr> frame_id = 10, index_id = 20, has_complex_internals = False,
       index_data = \<lparr> data = 1000, shape0 = 4, stride0 = 8, dtype = ''int64'', ndim = 1,
                      contiguous = True, itemsize = 8 \<rparr>,
       blocks = [\<lparr> bdata = 2000, bshape1 = 4, bstride1 = 8, bcontiguous = True \<rparr>],
       frame_name = None \<rparr>"

definition no_alloc :: "ndarray \<Rightarrow> int" where
  "no_alloc a = 0"

definition identity_callback :: frame_callback where
  "identity_callback i w = Inr (as_piece w)"

definition new_piece_callback :: frame_callback where
  "new_piece_callback i w = Inr (Obj 7 (Some 8))"

definition multi_frame :: frame where
  "multi_frame = demo_frame\<lparr> has_complex_internals := True \<rparr>"

text \<open>The block slider that \<open>BlockSlider\<close> builds for \<open>demo_frame\<close>.\<close>

definition demo_slider :: block_slider where
  "demo_slider =
     \<lparr> bs_frame = demo_frame,
       bs_dummy =
         \<lparr> frame_id = 11, index_id = 21, has_complex_internals = False,
           index_data = \<lparr> data = 1000, shape0 = 0, stride0 = 8, dtype = ''int64'', ndim = 1,
                          contiguous = True, itemsize = 8 \<rparr>,
           blocks = [\<lparr> bdata = 2000, bshape1 = 0, bstride1 = 8, bcontiguous = False \<rparr>],
           frame_name = None \<rparr>,
       bs_nblocks = 1,
       bs_idx_slider =
         \<lparr> sl_values = \<lparr> data = 1000, shape0 = 4, stride0 = 8, dtype = ''int64'', ndim = 1,
                         contiguous = True, itemsize = 8 \<rparr>,
           sl_buf = \<lparr> data = 1000, shape0 = 0, stride0 = 8, dtype = ''int64'', ndim = 1,
                      contiguous = True, itemsize = 8 \<rparr>,
           sl_stride = 8, orig_data = 1000, orig_len = 0, orig_stride = 8 \<rparr>,
       bs_base_ptrs = [2000] \<rparr>"

text \<open>The two assertions of \<open>Slider.__init__\<close>: one-dimensional values of the dtype of the buffer.\<close>

definition slider_accepts :: "ndarray \<Rightarrow> ndarray \<Rightarrow> bool" where
  "slider_accepts vals buf = (ndim vals = 1 \<and> dtype vals = dtype buf)"


text \<open>Concrete objects for the runs below.\<close>

definition demo_values :: ndarray where
  "demo_values = \<lparr> data = 3000, shape0 = 4, stride0 = 8, dtype = ''float64'', ndim = 1,
                    contiguous = True, itemsize = 8 \<rparr>"

definition demo_index_values :: ndarray where
  "demo_index_values = \<lparr> data = 1000, shape0 = 4, stride0 = 8, dtype = ''int64'', ndim = 1,
                          contiguous = True, itemsize = 8 \<rparr>"

definition demo_dummy_values :: ndarray where
  "demo_dummy_values = \<lparr> data = 5000, shape0 = 0, stride0 = 8, dtype = ''float64'', ndim = 1,
                          contiguous = True, itemsize = 8 \<rparr>"

definition demo_dummy_index :: ndarray where
  "demo_dummy_index = \<lparr> data = 6000, shape0 = 0, stride0 = 8, dtype = ''int64'', ndim = 1,
                         contiguous = True, itemsize = 8 \<rparr>"

definition Series_type :: pytype where
  "Series_type = \<lparr> type_name = ''Series'', type_subtyp = None \<rparr>"

definition Index_type :: pytype where
  "Index_type = \<lparr> type_name = ''Index'', type_subtyp = None \<rparr>"

definition demo_series :: series where
  "demo_series = \<lparr> s_values = demo_values, s_index = demo_index_values, s_dtype = ''float64'',
                    s_name = None, s_typ = Series_type, s_ityp = Index_type \<rparr>"

definition demo_dummy :: series where
  "demo_dummy = \<lparr> s_values = demo_dummy_values, s_index = demo_dummy_index,
                   s_dtype = ''float64'', s_name = None, s_typ = Series_type,
                   s_ityp = Index_type \<rparr>"

definition demo_bin_grouper :: bin_grouper where
  "demo_bin_grouper =
     \<lparr> bg_arr = demo_values, bg_index = demo_index_values, bg_dummy_arr = demo_dummy_values,
       bg_dummy_index = demo_dummy_index, bg_bins = [1, 3], bg_typ = Series_type,
       bg_ityp = Index_type, bg_name = None, bg_ngroups = 3 \<rparr>"

definition demo_label_grouper :: label_grouper where
  "demo_label_grouper =
     \<lparr> sg_arr = demo_values, sg_index = demo_index_values, sg_dummy_arr = demo_dummy_values,
       sg_dummy_index = demo_dummy_index, sg_labels = [- 1, 0, 0, 1], sg_typ = Series_type,
       sg_ityp = Index_type, sg_name = None, sg_ngroups = 2 \<rparr>"



definition no_convert :: "pyobj option list \<Rightarrow> pyobj option list" where
  "no_convert result = result"


text \<open>The entries of \<open>counts\<close> in closed form.\<close>

definition closed_count :: "bin_grouper \<Rightarrow> nat \<Rightarrow> int" where
  "closed_count g j =
     (if j = 0 then bg_bins g ! 0
      else if j = bg_ngroups g - 1 then shape0 (bg_arr g) - bg_bins g ! (j - 1)
      else bg_bins g ! j - bg_bins g ! (j - 1))"

text \<open>A callback that reduces: it returns a scalar for every group and never raises.\<close>

definition returns_scalars :: "reduce_callback \<Rightarrow> bool" where
  "returns_scalars f = (\<forall>i arg. \<exists>x. f i arg = Inr (Scalar x))"

definition count_callback :: reduce_callback where
  "count_callback i arg = Inr (Scalar (int i))"

text \<open>
  Every valid label occupies one run: between two rows that carry the same label other
  than \<open>-1\<close>, every row carries it too. Sorted labels are of this kind.
\<close>

definition runs_contiguous :: "int list \<Rightarrow> bool" where
  "runs_contiguous L =
     (\<forall>a b c. a < b \<and> b < c \<and> c < length L \<and> L ! a = L ! c \<and> L ! a \<noteq> - 1 \<longrightarrow> L ! b = L ! a)"

text \<open>Each label is \<open>-1\<close> or the number of a group.\<close>

definition labels_valid :: "nat \<Rightarrow> int list \<Rightarrow> bool" where
  "labels_valid G L = (\<forall>x \<in> set L. x = - 1 \<or> (0 \<le> x \<and> x < int G))"

text \<open>
  The invariant of the loop of \<open>SeriesGrouper.get_result\<close> before row \<open>i\<close>: the open run
  starts at row \<open>s\<close>, \<open>group_size\<close> is its length so far, and \<open>counts\<close> holds, for each
  group, the number of rows before \<open>s\<close> that carry its label.
\<close>

definition run_inv :: "int list \<Rightarrow> nat \<Rightarrow> nat \<Rightarrow> nat \<Rightarrow> group_state \<Rightarrow> bool" where
  "run_inv L G i s st =
     (length (gs_counts st) = G \<and> s \<le> i \<and> gs_group_size st = int (i - s)
      \<and> (\<forall>j. s \<le> j \<and> j < i \<longrightarrow> L ! j = L ! i)
      \<and> (s < i \<longrightarrow> i < length L)
      \<and> (0 < s \<and> s < length L \<longrightarrow> L ! (s - 1) \<noteq> L ! s)
      \<and> (\<forall>k<G. gs_counts st ! k = int (count_list (take s L) (int k))))"

definition label_inv :: "int list \<Rightarrow> nat \<Rightarrow> nat \<Rightarrow> group_state \<Rightarrow> bool" where
  "label_inv L G i st = (\<exists>s. run_inv L G i s st)"

text \<open>Some run of a valid label ends before row \<open>i\<close>: the callback has been called.\<close>

definition called_before :: "int list \<Rightarrow> nat \<Rightarrow> bool" where
  "called_before L i =
     (\<exists>j<i. L ! j \<noteq> - 1 \<and> (Suc j = length L \<or> L ! j \<noteq> L ! Suc j))"

text \<open>Three rows whose labels are not grouped: group 0 has two runs.\<close>

definition unsorted_grouper :: label_grouper where
  "unsorted_grouper =
     \<lparr> sg_arr = demo_values\<lparr> shape0 := 3 \<rparr>, sg_index = demo_index_values\<lparr> shape0 := 3 \<rparr>,
       sg_dummy_arr = demo_dummy_values, sg_dummy_index = demo_dummy_index,
       sg_labels = [0, 1, 0], sg_typ = Series_type, sg_ityp = Index_type, sg_name = None,
       sg_ngroups = 2 \<rparr>"

text \<open>
  Collaborators for the examples: the struct of a time within the first minute of 1970,
  and an ISO 8601 parser that knows four strings. Two of them carry the offset \<open>+02:00\<close>,
  one \<open>+03:00\<close> and one none; the struct of each is that of its wall-clock second.
\<close>

definition first_minute :: "int \<Rightarrow> npy_datetimestruct" where
  "first_minute v =
     \<lparr> dts_year = 1970, dts_month = 1, dts_day = 1, dts_hour = 0, dts_min = 0,
       dts_sec = v div 1000000000, dts_us = v mod 1000000000 div 1000,
       dts_ps = v mod 1000 * 1000, dts_as = 0 \<rparr>"

definition iso_table :: "(string \<times> int \<times> int option) list" where
  "iso_table =
     [(''1970-01-01T00:00:01'', 1, None),
      (''1970-01-01T00:00:02+02:00'', 2, Some 120),
      (''1970-01-01T00:00:03+02:00'', 3, Some 120),
      (''1970-01-01T00:00:04+03:00'', 4, Some 180)]"

definition demo_string_to_dts ::
  "string \<Rightarrow> int \<Rightarrow> int \<Rightarrow> bool \<times> npy_datetimestruct \<times> int \<times> int" where
  "demo_string_to_dts s ol oz =
     (case map_of iso_table s of
        None \<Rightarrow> (True, first_minute 0, ol, oz)
      | Some (sec, None) \<Rightarrow> (False, first_minute (sec * 1000000000), 0, oz)
      | Some (sec, Some minutes) \<Rightarrow> (False, first_minute (sec * 1000000000), 1, minutes))"

definition demo_parse :: "string \<Rightarrow> bool \<Rightarrow> bool \<Rightarrow> error + pydatetime" where
  "demo_parse s dayfirst yearfirst =
     (case map_of iso_table s of
        None \<Rightarrow> Inl (ValueError ''Unknown string format'')
      | Some (sec, off) \<Rightarrow>
          Inr \<lparr> dt_wall = first_minute (sec * 1000000000),
                dt_offset = map_option (\<lambda>m. m * 60) off, dt_nanosecond = None \<rparr>)"

definition demo_dt64 :: "npy_datetimestruct \<Rightarrow> int" where
  "demo_dt64 dts = dts_sec dts * 1000000000 + dts_us dts * 1000 + dts_ps dts div 1000"

definition demo_tz_convert :: "int \<Rightarrow> tzinfo \<Rightarrow> tzinfo \<Rightarrow> int" where
  "demo_tz_convert v tz1 tz2 =
     (case tz1 of FixedOffset m \<Rightarrow> v - \<lfloor>m\<rfloor> * 60000000000 | _ \<Rightarrow> v)"

definition demo_tslibs :: tslibs where
  "demo_tslibs =
     \<lparr> nat_strings = [''NaT'', ''nat'', ''NAT'', ''nan'', ''NaN'', ''NAN''],
       string_to_dts = demo_string_to_dts,
       dtstruct_to_dt64 = demo_dt64,
       dt64_to_dtstruct = first_minute,
       check_dts_bounds = (\<lambda>dts. True),
       parse_datetime_string = demo_parse,
       convert_datetime_to_tsobject =
         (\<lambda>d. Some (demo_dt64 (dt_wall d) - (case dt_offset d of None \<Rightarrow> 0 | Some s \<Rightarrow> s * 1000000000))),
       pydatetime_to_dt64 = (\<lambda>d. (demo_dt64 (dt_wall d), dt_wall d)),
       pydate_to_dt64 = (\<lambda>y m d. (0, first_minute 0)),
       get_datetime64_nanos = (\<lambda>v u. Some v),
       get_datetime64_value = (\<lambda>v u. v),
       datetime64_item = (\<lambda>v u. PyInt v),
       tz_convert_single = demo_tz_convert,
       cast_from_unit = (\<lambda>val u. None),
       float_to_int64 = (\<lambda>x. 0),
       utcnow_value = (\<lambda>i. 0),
       today_value = (\<lambda>i. 0),
       timestamp_str = (\<lambda>v tz. []),
       timestamp_strftime = (\<lambda>v tz f. None) \<rparr>"

definition no_other_unit :: "np_values \<Rightarrow> string \<Rightarrow> string \<Rightarrow> error + dt_array \<times> tzinfo option" where
  "no_other_unit values unit errors = Inl (ValueError ''unit'')"

text \<open>
  What the loop of \<open>array_to_datetime\<close> keeps true of the set of offsets: once
  \<open>seen_datetime_offset\<close> is set, the set holds a number; and the list that stands for the
  set has no duplicates.
\<close>

definition offsets_inv :: "pass_state \<Rightarrow> bool" where
  "offsets_inv st =
     ((seen_datetime_offset st \<longrightarrow> (\<exists>s. Offset s \<in> set (out_tzoffset_vals st)))
      \<and> distinct (out_tzoffset_vals st))"





section \<open>Verification\<close>

lemma for_loop_invariant:
  assumes "P s"
    and "\<And>i s. P s \<Longrightarrow> (case body i s of Next s' \<Rightarrow> P s' | Break s' \<Rightarrow> P s' | Raise e s' \<Rightarrow> P s')"
  shows "P (fst (for_loop body is s))"
  using assms(1)
proof (induction "is" arbitrary: s)
  case Nil then show ?case by simp
next
  case (Cons i "is")
  from assms(2)[OF Cons.prems, of i] show ?case
    by (cases "body i s") (auto intro: Cons.IH)
qed

lemma for_loop_error:
  assumes "\<And>i s e s'. body i s = Raise e s' \<Longrightarrow> Q e"
    and "for_loop body is s = (s', Some e)"
  shows "Q e"
  using assms(2)
proof (induction "is" arbitrary: s)
  case Nil then show ?case by simp
next
  case (Cons i "is")
  then show ?case using assms(1)
    by (cases "body i s") auto
qed

lemma apply_body_Raise:
  "apply_body f names starts ends i st = Raise e st'
    \<Longrightarrow> e \<noteq> InvalidApply ''Cannot modify frame index internals''"
  by (auto simp: apply_body_def getitem_def Let_def split: sum.splits if_splits option.splits)

lemma Slider_error: "Slider alloc v b = Inl e \<Longrightarrow> e = AssertionError"
  by (auto simp: Slider_def Let_def split: if_splits)

lemma BlockSlider_error: "BlockSlider slice0 alloc fr = Inl e \<Longrightarrow> e = AssertionError"
  by (auto simp: BlockSlider_def Let_def split: sum.splits dest: Slider_error)

text \<open>
  Claim C8. \<open>apply_frame_axis0\<close> raises \<open>InvalidApply('Cannot modify frame index
  internals')\<close> whenever the index of the frame has complex internals, and it does so first:
  the call ends with no block slider constructed (\<open>None\<close>), so no buffer was touched. When
  the index is not complex, the call never ends in that error.
\<close>

theorem complex_index_rejected_first:
  "(has_complex_internals fr \<longrightarrow>
      apply_frame_axis0 slice0 alloc fr f names starts ends
        = (Inl (InvalidApply ''Cannot modify frame index internals''), None))
   \<and> (\<not> has_complex_internals fr \<longrightarrow>
      fst (apply_frame_axis0 slice0 alloc fr f names starts ends)
        \<noteq> Inl (InvalidApply ''Cannot modify frame index internals''))"
proof (intro conjI impI)
  assume "has_complex_internals fr"
  then show "apply_frame_axis0 slice0 alloc fr f names starts ends
        = (Inl (InvalidApply ''Cannot modify frame index internals''), None)"
    by (simp add: apply_frame_axis0_def)
next
  assume nc: "\<not> has_complex_internals fr"
  show "fst (apply_frame_axis0 slice0 alloc fr f names starts ends)
        \<noteq> Inl (InvalidApply ''Cannot modify frame index internals'')"
  proof (cases "BlockSlider slice0 alloc fr")
    case (Inl e)
    then show ?thesis using nc BlockSlider_error[OF Inl]
      by (simp add: apply_frame_axis0_def)
  next
    case (Inr sl)
    obtain st exc where L: "for_loop (apply_body f names starts ends) [0..<length starts]
        \<lparr> ap_slider = sl, ap_results = [], ap_mutated = False \<rparr> = (st, exc)"
      by (cases "for_loop (apply_body f names starts ends) [0..<length starts]
        \<lparr> ap_slider = sl, ap_results = [], ap_mutated = False \<rparr>")
    show ?thesis
    proof (cases exc)
      case None
      then show ?thesis using nc Inr L by (simp add: apply_frame_axis0_def)
    next
      case (Some e)
      have "e \<noteq> InvalidApply ''Cannot modify frame index internals''"
        using for_loop_error[where Q="\<lambda>e. e \<noteq> InvalidApply ''Cannot modify frame index internals''", OF _ L[unfolded Some]]
          apply_body_Raise by blast
      then show ?thesis using nc Inr L Some by (simp add: apply_frame_axis0_def)
    qed
  qed
qed

lemma map2_move_twice:
  "map2 (\<lambda>base b. b\<lparr> bdata := base + bstride1 b * c, bshape1 := d \<rparr>) bases
     (map2 (\<lambda>base b. b\<lparr> bdata := base + bstride1 b * a, bshape1 := e \<rparr>) bases blks)
   = map2 (\<lambda>base b. b\<lparr> bdata := base + bstride1 b * c, bshape1 := d \<rparr>) bases blks"
proof (induction bases arbitrary: blks)
  case Nil then show ?case by simp
next
  case (Cons x xs) then show ?case by (cases blks) simp_all
qed

lemma move_move: "move (move s a b) c d = move s c d"
  by (simp add: move_def)

lemma bs_move_named: "bs_move (named s x) c d = named (bs_move s c d) x"
  by (simp add: bs_move_def named_def Let_def)

lemma bs_move_bs_move: "bs_move (bs_move s a b) c d = bs_move s c d"
  by (simp add: bs_move_def Let_def map2_move_twice move_move)

lemma named_named: "named (named s x) y = named s y"
  by (simp add: named_def)

lemma window_at_named: "window_at (named s x) nm a b = window_at s nm a b"
  by (simp add: window_at_def bs_move_named) (simp add: named_def)

lemma window_at_moved: "window_at (bs_move s c d) nm a b = window_at s nm a b"
  by (simp add: window_at_def bs_move_bs_move)

lemma for_loop_upt:
  assumes "I k s" "k \<le> n"
    and step: "\<And>i s. i < n \<Longrightarrow> I i s \<Longrightarrow>
            (case body i s of Next s' \<Rightarrow> I (Suc i) s' | Break s' \<Rightarrow> Q s' None
                            | Raise e s' \<Rightarrow> Q s' (Some e))"
    and fin: "\<And>s. I n s \<Longrightarrow> Q s None"
  shows "Q (fst (for_loop body [k..<n] s)) (snd (for_loop body [k..<n] s))"
  using assms(1,2)
proof (induction "n - k" arbitrary: k s)
  case 0
  then show ?case using fin by simp
next
  case (Suc d)
  then have kn: "k < n" by simp
  have upt: "[k..<n] = k # [Suc k..<n]" using kn by (simp add: upt_conv_Cons)
  from step[OF kn Suc.prems(1)] have S: "case body k s of Next s' \<Rightarrow> I (Suc k) s' | Break s' \<Rightarrow> Q s' None
                            | Raise e s' \<Rightarrow> Q s' (Some e)" by simp
  show ?case
  proof (cases "body k s")
    case (Next s')
    with S have "I (Suc k) s'" by simp
    moreover have "d = n - Suc k" using Suc.hyps(2) by simp
    moreover have "Suc k \<le> n" using kn by simp
    ultimately have "Q (fst (for_loop body [Suc k..<n] s')) (snd (for_loop body [Suc k..<n] s'))"
      using Suc.hyps(1)[of "Suc k" s'] step by simp
    then show ?thesis using Next upt by simp
  next
    case (Break s')
    then show ?thesis using S upt by simp
  next
    case (Raise e s')
    then show ?thesis using S upt by simp
  qed
qed

lemma sim_refl: "sim sl0 sl0" by (simp add: sim_def)

lemma sim_step: "sim sl0 s \<Longrightarrow> sim sl0 (named (bs_move s a b) x)"
  by (simp add: sim_def window_at_named window_at_moved)

lemma sim_move: "sim sl0 s \<Longrightarrow> sim sl0 (bs_move s a b)"
  by (simp add: sim_def window_at_moved)

lemma apply_body_unfold:
  assumes "i < length starts" "i < length ends" "i < length names"
  shows "apply_body f names starts ends i st =
     (let w = window_at (ap_slider st) (names ! i) (starts ! i) (ends ! i);
          st2 = st\<lparr> ap_slider := named (bs_move (ap_slider st) (c_int (starts ! i)) (c_int (ends ! i))) (Some (names ! i)) \<rparr>
      in case f i w of
           Inl e \<Rightarrow> Raise (if is_Exception e then InvalidApply ''Let this error raise above us'' else e) st2
         | Inr p \<Rightarrow>
             let st3 = st2\<lparr> ap_mutated := (ap_mutated st \<or> index_differs w p),
                              ap_results := ap_results st @ [store w p] \<rparr>
             in if i = 0 \<and> obj_id p = frame_id w then Break st3 else Next st3)"
  using assms
  by (auto simp: apply_body_def getitem_def Let_def window_at_def named_def store_def index_differs_def
           split: sum.splits option.splits)

lemma loop_ok_snoc:
  assumes "loop_ok f W st" "f (length (ap_results st)) (W (length (ap_results st))) = Inr p"
  shows "loop_ok f W (st\<lparr> ap_slider := sl,
            ap_mutated := (ap_mutated st \<or> index_differs (W (length (ap_results st))) p),
            ap_results := ap_results st @ [store (W (length (ap_results st))) p] \<rparr>)"
  using assms unfolding loop_ok_def
  by (auto simp: nth_append less_Suc_eq)

lemma apply_loop_char:
  assumes "sim sl0 (ap_slider st0)" "ap_results st0 = []" "\<not> ap_mutated st0"
    and W: "W = (\<lambda>i. window_at sl0 (names ! i) (starts ! i) (ends ! i))"
  shows "snd (for_loop (apply_body f names starts ends) [0..<length starts] st0) = None
      \<longrightarrow> loop_ok f W (fst (for_loop (apply_body f names starts ends) [0..<length starts] st0))"
proof (rule for_loop_upt[where I="\<lambda>i st. sim sl0 (ap_slider st) \<and> length (ap_results st) = i \<and> loop_ok f W st"
      and Q="\<lambda>st exc. exc = None \<longrightarrow> loop_ok f W st"])
  show "sim sl0 (ap_slider st0) \<and> length (ap_results st0) = 0 \<and> loop_ok f W st0"
    using assms by (simp add: loop_ok_def)
next
  show "0 \<le> length starts" by simp
next
  fix s assume "sim sl0 (ap_slider s) \<and> length (ap_results s) = length starts \<and> loop_ok f W s"
  then show "None = None \<longrightarrow> loop_ok f W s" by simp
next
  fix i s
  assume i: "i < length starts"
    and I: "sim sl0 (ap_slider s) \<and> length (ap_results s) = i \<and> loop_ok f W s"
  let ?B = "apply_body f names starts ends i s"
  show "case ?B of
          Next s' \<Rightarrow> sim sl0 (ap_slider s') \<and> length (ap_results s') = Suc i \<and> loop_ok f W s'
        | Break s' \<Rightarrow> None = None \<longrightarrow> loop_ok f W s'
        | Raise e s' \<Rightarrow> Some e = None \<longrightarrow> loop_ok f W s'"
  proof (cases "i < length ends \<and> i < length names")
    case False
    then show ?thesis using i
      by (auto simp: apply_body_def getitem_def Let_def split: sum.splits)
  next
    case True
    have w: "window_at (ap_slider s) (names ! i) (starts ! i) (ends ! i) = W i"
      using I by (simp add: sim_def W)
    show ?thesis
    proof (cases "f i (W i)")
      case (Inl e)
      then show ?thesis using True i w by (simp add: apply_body_unfold Let_def)
    next
      case (Inr p)
      have ok: "loop_ok f W (s\<lparr> ap_slider := sl,
            ap_mutated := (ap_mutated s \<or> index_differs (W i) p),
            ap_results := ap_results s @ [store (W i) p] \<rparr>)" for sl
        using loop_ok_snoc[of f W s p sl] I Inr by simp
      let ?st3 = "s\<lparr> ap_slider := named (bs_move (ap_slider s) (c_int (starts ! i)) (c_int (ends ! i))) (Some (names ! i)),
                              ap_mutated := (ap_mutated s \<or> index_differs (W i) p),
                              ap_results := ap_results s @ [store (W i) p] \<rparr>"
      have "?B = (let st3 = ?st3
             in if i = 0 \<and> obj_id p = frame_id (W i) then Break st3 else Next st3)"
        using True i w Inr by (simp add: apply_body_unfold Let_def)
      then have B: "?B = (if i = 0 \<and> obj_id p = frame_id (W i) then Break ?st3 else Next ?st3)"
        (is "_ = (if ?c then _ else _)") by (simp add: Let_def)
      have ok3: "loop_ok f W ?st3" by (rule ok)
      have sim3: "sim sl0 (ap_slider ?st3)" using I by (simp add: sim_step)
      have len3: "length (ap_results ?st3) = Suc i" using I by simp
      show ?thesis
      proof (cases ?c)
        case True
        then have "?B = Break ?st3" using B by simp
        then show ?thesis using ok3 by simp
      next
        case False
        then have "?B = Next ?st3" using B by simp
        then show ?thesis using ok3 sim3 len3 by simp
      qed
    qed
  qed
qed

text \<open>
  Claim C7, as amended. If the callback returns the very window it was given on the first
  range, exactly one range is processed: the results list holds one entry, a deep copy of
  the window, and \<open>mutated\<close> is False. No flag for the slow path is returned; the early
  stop shows as a results list shorter than the ranges requested, that is, exactly when
  more than one range was requested.
\<close>

theorem same_object_stops_after_one:
  assumes nc: "\<not> has_complex_internals fr"
    and sl: "BlockSlider slice0 alloc fr = Inr sl"
    and ne: "starts \<noteq> []" "ends \<noteq> []" "names \<noteq> []"
    and same: "f 0 (window_at sl (names ! 0) (starts ! 0) (ends ! 0))
                = Inr (as_piece (window_at sl (names ! 0) (starts ! 0) (ends ! 0)))"
  shows "fst (apply_frame_axis0 slice0 alloc fr f names starts ends)
           = Inr ([DeepCopy (as_piece (window_at sl (names ! 0) (starts ! 0) (ends ! 0)))], False)
         \<and> (stopped_early starts
               ([DeepCopy (as_piece (window_at sl (names ! 0) (starts ! 0) (ends ! 0)))], False)
              \<longleftrightarrow> 1 < length starts)"
proof -
  let ?W = "window_at sl (names ! 0) (starts ! 0) (ends ! 0)"
  let ?st0 = "\<lparr> ap_slider = sl, ap_results = [], ap_mutated = False \<rparr>"
  have upt: "[0..<length starts] = 0 # [1..<length starts]"
    using ne(1) by (simp add: upt_conv_Cons)
  have len: "0 < length starts" "0 < length ends" "0 < length names" using ne by simp_all
  have "apply_body f names starts ends 0 ?st0
      = Break (?st0\<lparr> ap_slider := named (bs_move sl (c_int (starts ! 0)) (c_int (ends ! 0))) (Some (names ! 0)),
                        ap_mutated := False, ap_results := [DeepCopy (as_piece ?W)] \<rparr>)"
    using same by (simp add: apply_body_unfold[OF len] Let_def as_piece_def store_def index_differs_def)
  then have "fst (apply_frame_axis0 slice0 alloc fr f names starts ends) = Inr ([DeepCopy (as_piece ?W)], False)"
    using nc sl upt by (simp add: apply_frame_axis0_def)
  moreover have "stopped_early starts ([DeepCopy (as_piece ?W)], False) \<longleftrightarrow> 1 < length starts"
    by (simp add: stopped_early_def)
  ultimately show ?thesis by simp
qed

text \<open>
  Claim C1, as amended. When \<open>apply_frame_axis0\<close> returns, every entry of the results
  list is the piece that the callback returned for that range (deep-copied when it shares
  the index object of its window), and \<open>mutated\<close> is True exactly when the piece of some
  processed range has an index object that is not the index of its window. So when every
  processed piece has a different index object, \<open>mutated\<close> is True as soon as one range was
  processed, and False only when none was.
\<close>

theorem mutated_iff_index_differs:
  assumes sl: "BlockSlider slice0 alloc fr = Inr sl"
    and ret: "apply_frame_axis0 slice0 alloc fr f names starts ends = (Inr (results, mutated), sl')"
  shows "(\<forall>i<length results. \<exists>p.
            f i (window_at sl (names ! i) (starts ! i) (ends ! i)) = Inr p
            \<and> results ! i = store (window_at sl (names ! i) (starts ! i) (ends ! i)) p)
         \<and> (mutated \<longleftrightarrow>
              (\<exists>i<length results. \<exists>p.
                 f i (window_at sl (names ! i) (starts ! i) (ends ! i)) = Inr p
                 \<and> index_differs (window_at sl (names ! i) (starts ! i) (ends ! i)) p))"
proof -
  let ?st0 = "\<lparr> ap_slider = sl, ap_results = [], ap_mutated = False \<rparr>"
  let ?L = "for_loop (apply_body f names starts ends) [0..<length starts] ?st0"
  let ?W = "\<lambda>i. window_at sl (names ! i) (starts ! i) (ends ! i)"
  have nc: "\<not> has_complex_internals fr" using ret by (auto simp: apply_frame_axis0_def)
  obtain st exc where L: "?L = (st, exc)" by (cases ?L)
  from ret nc sl L have "exc = None" "results = ap_results st" "mutated = ap_mutated st"
    by (auto simp: apply_frame_axis0_def Let_def split: option.splits)
  moreover have "snd ?L = None \<longrightarrow> loop_ok f ?W (fst ?L)"
    by (rule apply_loop_char) (simp_all add: sim_refl)
  ultimately have "loop_ok f ?W st" using L by simp
  then show ?thesis using \<open>results = ap_results st\<close> \<open>mutated = ap_mutated st\<close>
    by (simp add: loop_ok_def)
qed

lemma demo_slider_built: "BlockSlider take_no_rows no_alloc demo_frame = Inr demo_slider"
  by (simp add: BlockSlider_def Slider_def take_no_rows_def demo_frame_def demo_slider_def)

lemma demo_not_complex: "\<not> has_complex_internals demo_frame"
  by (simp add: demo_frame_def)

theorem complex_index_rejected_first_witness:
  "apply_frame_axis0 take_no_rows no_alloc multi_frame identity_callback [''a''] [0] [2]
     = (Inl (InvalidApply ''Cannot modify frame index internals''), None)
   \<and> fst (apply_frame_axis0 take_no_rows no_alloc demo_frame identity_callback [''a''] [0] [2])
     \<noteq> Inl (InvalidApply ''Cannot modify frame index internals'')"
  using complex_index_rejected_first [of multi_frame take_no_rows no_alloc identity_callback "[''a'']" "[0]" "[2]"]
        complex_index_rejected_first [of demo_frame take_no_rows no_alloc identity_callback "[''a'']" "[0]" "[2]"]
  by (simp add: multi_frame_def demo_frame_def)

theorem same_object_stops_after_one_witness:
  "fst (apply_frame_axis0 take_no_rows no_alloc demo_frame identity_callback [''a'', ''b''] [0, 2] [2, 4])
     = Inr ([DeepCopy (Obj 11 (Some 21))], False)
   \<and> stopped_early [0, 2] ([DeepCopy (Obj 11 (Some 21))], False)"
proof -
  have same: "identity_callback 0 (window_at demo_slider ([''a'', ''b''] ! 0) ([0, 2] ! 0) ([2, 4] ! 0))
        = Inr (as_piece (window_at demo_slider ([''a'', ''b''] ! 0) ([0, 2] ! 0) ([2, 4] ! 0)))"
    by (simp add: identity_callback_def)
  have w: "as_piece (window_at demo_slider ([''a'', ''b''] ! 0) ([0, 2] ! 0) ([2, 4] ! 0)) = Obj 11 (Some 21)"
    by (simp add: as_piece_def window_at_def demo_slider_def bs_move_def Let_def)
  have "fst (apply_frame_axis0 take_no_rows no_alloc demo_frame identity_callback [''a'', ''b''] [0, 2] [2, 4])
           = Inr ([DeepCopy (as_piece (window_at demo_slider ([''a'', ''b''] ! 0) ([0, 2] ! 0) ([2, 4] ! 0)))], False)
         \<and> (stopped_early [0, 2]
               ([DeepCopy (as_piece (window_at demo_slider ([''a'', ''b''] ! 0) ([0, 2] ! 0) ([2, 4] ! 0)))], False)
              \<longleftrightarrow> 1 < length [0::int, 2])"
    by (rule same_object_stops_after_one [where sl = demo_slider])
       (simp_all add: demo_not_complex demo_slider_built identity_callback_def)
  then show ?thesis unfolding w by simp
qed

text \<open>
  The claim as stated fails where one range is requested: the call returns a complete
  results list with \<open>mutated\<close> False, and nothing in what it returns tells the caller that
  the callback handed back the window itself.
\<close>

theorem slow_path_unreported_counterexample:
  "identity_callback 0 (window_at demo_slider ''a'' 0 2) = Inr (as_piece (window_at demo_slider ''a'' 0 2))
   \<and> fst (apply_frame_axis0 take_no_rows no_alloc demo_frame identity_callback [''a''] [0] [2])
       = Inr ([DeepCopy (Obj 11 (Some 21))], False)
   \<and> \<not> stopped_early [0] ([DeepCopy (Obj 11 (Some 21))], False)"
  by (simp add: apply_frame_axis0_def BlockSlider_def Slider_def take_no_rows_def demo_frame_def
        identity_callback_def apply_body_def getitem_def bs_move_def move_def c_int_def
        as_piece_def stopped_early_def Let_def)

theorem mutated_iff_index_differs_witness:
  "fst (apply_frame_axis0 take_no_rows no_alloc demo_frame new_piece_callback [''a'', ''b''] [0, 2] [2, 4])
     = Inr ([Kept (Obj 7 (Some 8)), Kept (Obj 7 (Some 8))], True)
   \<and> (\<exists>i<length [Kept (Obj 7 (Some 8)), Kept (Obj 7 (Some 8))]. \<exists>p.
          new_piece_callback i (window_at demo_slider ([''a'', ''b''] ! i) ([0, 2] ! i) ([2, 4] ! i)) = Inr p
          \<and> index_differs (window_at demo_slider ([''a'', ''b''] ! i) ([0, 2] ! i) ([2, 4] ! i)) p)"
proof -
  have run0: "fst (apply_frame_axis0 take_no_rows no_alloc demo_frame new_piece_callback [''a'', ''b''] [0, 2] [2, 4])
     = Inr ([Kept (Obj 7 (Some 8)), Kept (Obj 7 (Some 8))], True)"
    by (simp add: apply_frame_axis0_def BlockSlider_def Slider_def take_no_rows_def demo_frame_def
        new_piece_callback_def apply_body_def getitem_def bs_move_def move_def c_int_def
        Let_def upt_rec)
  have run: "apply_frame_axis0 take_no_rows no_alloc demo_frame new_piece_callback [''a'', ''b''] [0, 2] [2, 4]
     = (Inr ([Kept (Obj 7 (Some 8)), Kept (Obj 7 (Some 8))], True),
        snd (apply_frame_axis0 take_no_rows no_alloc demo_frame new_piece_callback [''a'', ''b''] [0, 2] [2, 4]))"
    by (simp add: prod_eq_iff run0)
  have E: "\<exists>i<length [Kept (Obj 7 (Some 8)), Kept (Obj 7 (Some 8))]. \<exists>p.
          new_piece_callback i (window_at demo_slider ([''a'', ''b''] ! i) ([0, 2] ! i) ([2, 4] ! i)) = Inr p
          \<and> index_differs (window_at demo_slider ([''a'', ''b''] ! i) ([0, 2] ! i) ([2, 4] ! i)) p"
    using mutated_iff_index_differs [OF demo_slider_built run] by blast
  show ?thesis by (intro conjI run0 E)
qed

text \<open>
  The claim as stated fails on one range whose piece is a new object with an index of its
  own: \<open>mutated\<close> comes back True.
\<close>

theorem mutated_false_counterexample:
  "new_piece_callback 0 (window_at demo_slider ''a'' 0 2) = Inr (Obj 7 (Some 8))
   \<and> index_differs (window_at demo_slider ''a'' 0 2) (Obj 7 (Some 8))
   \<and> fst (apply_frame_axis0 take_no_rows no_alloc demo_frame new_piece_callback [''a''] [0] [2])
       = Inr ([Kept (Obj 7 (Some 8))], True)"
  by (simp add: apply_frame_axis0_def BlockSlider_def Slider_def take_no_rows_def demo_frame_def
        new_piece_callback_def apply_body_def getitem_def bs_move_def move_def c_int_def
        index_differs_def window_at_def demo_slider_def Let_def)


lemma Slider_accepts: "slider_accepts vals buf \<Longrightarrow> \<exists>s. Slider alloc vals buf = Inr s"
  by (simp add: Slider_def slider_accepts_def Let_def)



















lemma counts_loop:
  assumes G: "bg_ngroups g \<le> length (bg_bins g) + 1" "1 \<le> bg_ngroups g"
    and c0: "length c0 = bg_ngroups g" "c0 ! 0 = bg_bins g ! 0"
  shows "for_loop (counts_body g) [1..<bg_ngroups g] c0
          = (map (closed_count g) [0..<bg_ngroups g], None)"
proof -
  let ?G = "bg_ngroups g"
  let ?L = "for_loop (counts_body g) [1..<?G] c0"
  have "snd ?L = None \<and> fst ?L = map (closed_count g) [0..<?G]"
  proof (rule for_loop_upt[where I="\<lambda>i c. 1 \<le> i \<and> length c = ?G \<and> take i c = map (closed_count g) [0..<i]"
        and Q="\<lambda>c exc. exc = None \<and> c = map (closed_count g) [0..<?G]"])
    show "1 \<le> (1::nat) \<and> length c0 = ?G \<and> take 1 c0 = map (closed_count g) [0..<1]"
      using c0 G by (cases c0) (simp_all add: closed_count_def)
  next
    show "1 \<le> ?G" by (rule G(2))
  next
    fix c assume "1 \<le> ?G \<and> length c = ?G \<and> take ?G c = map (closed_count g) [0..<?G]"
    then have "take (length c) c = map (closed_count g) [0..<?G]" by simp
    then show "None = None \<and> c = map (closed_count g) [0..<?G]" by simp
  next
    fix i c
    assume i: "i < ?G" and I: "1 \<le> i \<and> length c = ?G \<and> take i c = map (closed_count g) [0..<i]"
    have b1: "i - 1 < length (bg_bins g)" using i I G by arith
    have step: "take (Suc i) (c[i := v]) = map (closed_count g) [0..<i] @ [v]" for v
      using I i by (simp add: take_Suc_conv_app_nth)
    show "case counts_body g i c of
            Next c' \<Rightarrow> 1 \<le> Suc i \<and> length c' = ?G \<and> take (Suc i) c' = map (closed_count g) [0..<Suc i]
          | Break c' \<Rightarrow> None = None \<and> c' = map (closed_count g) [0..<?G]
          | Raise e c' \<Rightarrow> Some e = None \<and> c' = map (closed_count g) [0..<?G]"
    proof -
      have i0: "i \<noteq> 0" using I by simp
      have B: "counts_body g i c = Next (c[i := closed_count g i])"
      proof (cases "i = ?G - 1")
        case True
        then show ?thesis using b1 i0
          by (simp add: counts_body_def getitem_def closed_count_def)
      next
        case False
        then have "i < length (bg_bins g)" using i G by arith
        then show ?thesis using False b1 i0
          by (simp add: counts_body_def getitem_def closed_count_def)
      qed
      show ?thesis unfolding B using I step[of "closed_count g i"] by simp
    qed
  qed
  then show ?thesis by (simp add: prod_eq_iff)
qed

lemma bin_counts_closed:
  assumes "bg_bins g \<noteq> []" "bg_ngroups g \<le> length (bg_bins g) + 1" "1 \<le> bg_ngroups g"
  shows "bin_counts g = Inr (map (closed_count g) [0..<bg_ngroups g])"
proof -
  have "for_loop (counts_body g) [1..<bg_ngroups g] ((replicate (bg_ngroups g) 0)[0 := bg_bins g ! 0])
          = (map (closed_count g) [0..<bg_ngroups g], None)"
    using assms by (intro counts_loop) simp_all
  then show ?thesis using assms
    by (simp add: bin_counts_def getitem_def)
qed

lemma telescope:
  "k < length bs \<Longrightarrow>
   (\<Sum>j\<leftarrow>[0..<Suc k]. if j = 0 then bs ! 0 else bs ! j - bs ! (j - 1)) = (bs ! k :: int)"
  by (induction k) simp_all

lemma sum_closed_extra:
  assumes m: "bg_bins g \<noteq> []" and G: "bg_ngroups g = length (bg_bins g) + 1"
  shows "sum_list (map (closed_count g) [0..<bg_ngroups g]) = shape0 (bg_arr g)"
proof -
  let ?m = "length (bg_bins g)"
  let ?b = "bg_bins g"
  obtain k where k: "?m = Suc k" using m by (cases ?b) simp_all
  have "map (closed_count g) [0..<Suc k]
        = map (\<lambda>j. if j = 0 then ?b ! 0 else ?b ! j - ?b ! (j - 1)) [0..<Suc k]"
    by (rule map_cong) (auto simp: closed_count_def G k)
  then have "sum_list (map (closed_count g) [0..<Suc k])
        = (\<Sum>j\<leftarrow>[0..<Suc k]. if j = 0 then ?b ! 0 else ?b ! j - ?b ! (j - 1))"
    by (simp only:)
  also have "\<dots> = ?b ! k" by (rule telescope) (simp add: k)
  finally have "sum_list (map (closed_count g) [0..<Suc k]) = ?b ! k" .
  moreover have "closed_count g (Suc k) = shape0 (bg_arr g) - ?b ! k"
    by (simp add: closed_count_def G k)
  ultimately show ?thesis by (simp add: G k)
qed

lemma sum_closed_exact:
  assumes m: "bg_bins g \<noteq> []" and G: "bg_ngroups g = length (bg_bins g)"
    and l: "last (bg_bins g) = shape0 (bg_arr g)"
  shows "sum_list (map (closed_count g) [0..<bg_ngroups g]) = shape0 (bg_arr g)"
proof -
  let ?m = "length (bg_bins g)"
  let ?b = "bg_bins g"
  obtain k where k: "?m = Suc k" using m by (cases ?b) simp_all
  have lastk: "?b ! k = shape0 (bg_arr g)" using l m k by (simp add: last_conv_nth)
  show ?thesis
  proof (cases k)
    case 0
    then show ?thesis using lastk by (simp add: G k closed_count_def)
  next
    case (Suc k')
    have "map (closed_count g) [0..<Suc k']
          = map (\<lambda>j. if j = 0 then ?b ! 0 else ?b ! j - ?b ! (j - 1)) [0..<Suc k']"
      by (rule map_cong) (auto simp: closed_count_def G k Suc)
    then have "sum_list (map (closed_count g) [0..<Suc k'])
        = (\<Sum>j\<leftarrow>[0..<Suc k']. if j = 0 then ?b ! 0 else ?b ! j - ?b ! (j - 1))"
      by (simp only:)
    also have "\<dots> = ?b ! k'" by (rule telescope) (simp add: k Suc)
    finally have "sum_list (map (closed_count g) [0..<Suc k']) = ?b ! k'" .
    moreover have "closed_count g (Suc k') = shape0 (bg_arr g) - ?b ! k'"
      by (simp add: closed_count_def G k Suc)
    ultimately show ?thesis by (simp add: G k Suc)
  qed
qed

lemma init_ngroups:
  assumes "SeriesBinGrouper alloc ser bins (Some dummy) = Inr g"
  shows "bg_bins g = bins"
    and "shape0 (bg_arr g) = shape0 (s_values ser)"
    and "bg_ngroups g = (if bins \<noteq> [] \<and> last bins = shape0 (s_values ser)
                          then length bins else length bins + 1)"
  using assms
  by (auto simp: SeriesBinGrouper_def Let_def array_copy_def split: sum.splits if_splits)

lemma bin_counts_props:
  assumes init: "SeriesBinGrouper alloc ser bins (Some dummy) = Inr g" and ne: "bins \<noteq> []"
  shows "\<exists>counts. bin_counts g = Inr counts \<and> length counts = bg_ngroups g
           \<and> sum_list counts = shape0 (s_values ser) \<and> counts ! 0 = bins ! 0"
proof -
  note I = init_ngroups[OF init]
  have G: "bg_ngroups g \<le> length (bg_bins g) + 1" "1 \<le> bg_ngroups g" "bg_bins g \<noteq> []"
    using I ne by (auto split: if_splits simp: Suc_le_eq)
  have C: "bin_counts g = Inr (map (closed_count g) [0..<bg_ngroups g])"
    using G by (intro bin_counts_closed) simp_all
  have S: "sum_list (map (closed_count g) [0..<bg_ngroups g]) = shape0 (bg_arr g)"
  proof (cases "last bins = shape0 (s_values ser)")
    case True
    then show ?thesis using I ne by (intro sum_closed_exact) simp_all
  next
    case False
    then show ?thesis using I ne by (intro sum_closed_extra) simp_all
  qed
  have Z: "map (closed_count g) [0..<bg_ngroups g] ! 0 = bins ! 0"
    using G I by (simp add: closed_count_def)
  show ?thesis using C S Z I by simp
qed

lemma call_group_counts:
  "gs_counts (snd (call_group typ ityp name f i ng st)) = gs_counts st"
  by (auto simp: call_group_def Let_def split: option.splits prod.splits sum.splits)

lemma bin_body_counts:
  "case bin_body g f i st of Next s' \<Rightarrow> gs_counts s' = gs_counts st
     | Break s' \<Rightarrow> gs_counts s' = gs_counts st
     | Raise e s' \<Rightarrow> gs_counts s' = gs_counts st"
proof (cases "getitem (gs_counts st) i")
  case (Inl e) then show ?thesis by (simp add: bin_body_def)
next
  case (Inr k)
  let ?C = "call_group (bg_typ g) (bg_ityp g) (bg_name g) f i (bg_ngroups g) (st\<lparr> gs_group_size := k \<rparr>)"
  obtain out st1 where C: "?C = (out, st1)" by (cases ?C)
  have B: "gs_counts st1 = gs_counts st"
    using call_group_counts[of "bg_typ g" "bg_ityp g" "bg_name g" f i "bg_ngroups g" "st\<lparr> gs_group_size := k \<rparr>"] C
    by simp
  show ?thesis using Inr C B
    by (auto simp: bin_body_def split: sum.splits option.splits)
qed

lemma call_group_scalar:
  assumes "returns_scalars f"
  shows "\<exists>x st'. call_group typ ityp name f i ng st = (Inr (Scalar x), st')
           \<and> gs_counts st' = gs_counts st \<and> gs_initialized st'
           \<and> gs_group_size st' = gs_group_size st
           \<and> gs_result st' = (if gs_initialized st then gs_result st else Some (replicate ng None))"
proof -
  let ?isl = "set_length (gs_islider st) (gs_group_size st)"
  let ?vsl = "set_length (gs_vslider st) (gs_group_size st)"
  let ?X = "(case gs_cached st of
               None \<Rightarrow>
                 (let it = construct ityp (sl_buf ?isl) None None
                  in (it, construct typ (sl_buf ?vsl) (Some it) name))
             | Some (it0, c) \<Rightarrow>
                 (let it = set_values it0 (sl_buf ?isl)
                  in (it, set_name (set_index (set_values c (sl_buf ?vsl)) (Some it)) name)))"
  obtain it c where cc: "?X = (it, c)" by (cases ?X)
  from assms obtain x where x: "f i c = Inr (Scalar x)" unfolding returns_scalars_def by blast
  have e: "extract_result (Scalar x) = Scalar x" by (simp add: extract_result_def)
  have g: "get_result_array (Scalar x) ng k = Inr (replicate ng None)" for k
    by (simp add: get_result_array_def)
  have "call_group typ ityp name f i ng st =
      (let (cached_ityp, cached_typ) = ?X;
           st1 = st\<lparr> gs_islider := ?isl, gs_vslider := ?vsl,
                    gs_cached := Some (cached_ityp, cached_typ) \<rparr>
      in case f i cached_typ of
           Inl e \<Rightarrow> (Inl e, st1)
         | Inr res0 \<Rightarrow>
             let res = extract_result res0
             in if \<not> gs_initialized st1
                then (case get_result_array res ng (shape0 (sl_buf ?vsl)) of
                        Inl e \<Rightarrow> (Inl e, st1\<lparr> gs_initialized := True \<rparr>)
                      | Inr a \<Rightarrow>
                          (Inr res, st1\<lparr> gs_initialized := True, gs_result := Some a \<rparr>))
                else (Inr res, st1))"
    unfolding call_group_def Let_def ..
  then show ?thesis unfolding cc using x e g
    by (simp add: Let_def)
qed

lemma bin_loop_scalar:
  assumes f: "returns_scalars f" and G: "1 \<le> bg_ngroups g"
    and st0: "length (gs_counts st0) = bg_ngroups g" "\<not> gs_initialized st0"
  shows "\<exists>st a. for_loop (bin_body g f) [0..<bg_ngroups g] st0 = (st, None) \<and> gs_result st = Some a"
proof -
  let ?G = "bg_ngroups g"
  let ?L = "for_loop (bin_body g f) [0..<?G] st0"
  have "snd ?L = None \<and> (\<exists>a. gs_result (fst ?L) = Some a)"
  proof (rule for_loop_upt[where I="\<lambda>i st. length (gs_counts st) = ?G \<and>
              (if i = 0 then \<not> gs_initialized st
               else gs_initialized st \<and> (\<exists>a. gs_result st = Some a \<and> length a = ?G))"
        and Q="\<lambda>st exc. exc = None \<and> (\<exists>a. gs_result st = Some a)"])
    show "length (gs_counts st0) = ?G \<and>
              (if (0::nat) = 0 then \<not> gs_initialized st0
               else gs_initialized st0 \<and> (\<exists>a. gs_result st0 = Some a \<and> length a = ?G))"
      using st0 by simp
  next
    show "0 \<le> ?G" by simp
  next
    fix s :: group_state assume "length (gs_counts s) = ?G \<and>
              (if ?G = 0 then \<not> gs_initialized s
               else gs_initialized s \<and> (\<exists>a. gs_result s = Some a \<and> length a = ?G))"
    then show "None = None \<and> (\<exists>a. gs_result s = Some a)" using G by auto
  next
    fix i and s :: group_state
    assume i: "i < ?G" and I: "length (gs_counts s) = ?G \<and>
              (if i = 0 then \<not> gs_initialized s
               else gs_initialized s \<and> (\<exists>a. gs_result s = Some a \<and> length a = ?G))"
    let ?k = "gs_counts s ! i"
    let ?s1 = "s\<lparr> gs_group_size := ?k \<rparr>"
    from call_group_scalar[OF f, of "bg_typ g" "bg_ityp g" "bg_name g" i ?G ?s1]
    obtain x st' where C: "call_group (bg_typ g) (bg_ityp g) (bg_name g) f i ?G ?s1 = (Inr (Scalar x), st')"
      and c: "gs_counts st' = gs_counts s" and ini: "gs_initialized st'"
      and r: "gs_result st' = (if gs_initialized s then gs_result s else Some (replicate ?G None))"
      by auto
    obtain a where a: "gs_result st' = Some a" "length a = ?G"
      using r I by (cases "i = 0") auto
    have B: "bin_body g f i s = Next (st'\<lparr> gs_result := Some (a[i := Some (Scalar x)]),
                                    gs_islider := advance (gs_islider st') ?k,
                                    gs_vslider := advance (gs_vslider st') ?k \<rparr>)"
      using i I C a by (simp add: bin_body_def getitem_def setitem_def)
    show "case bin_body g f i s of
            Next s' \<Rightarrow> length (gs_counts s') = ?G \<and>
              (if Suc i = 0 then \<not> gs_initialized s'
               else gs_initialized s' \<and> (\<exists>a. gs_result s' = Some a \<and> length a = ?G))
          | Break s' \<Rightarrow> None = None \<and> (\<exists>a. gs_result s' = Some a)
          | Raise e s' \<Rightarrow> Some e = None \<and> (\<exists>a. gs_result s' = Some a)"
      unfolding B using c ini a I by simp
  qed
  moreover obtain st exc where "?L = (st, exc)" by (cases ?L)
  ultimately show ?thesis by auto
qed

lemma bin_result_counts:
  assumes "fst (SeriesBinGrouper_get_result alloc convert g f) = Inr (res, counts)"
  shows "bin_counts g = Inr counts"
proof (cases "bin_counts g")
  case (Inl e) then show ?thesis using assms by (simp add: SeriesBinGrouper_get_result_def)
next
  case C: (Inr c)
  show ?thesis
  proof (cases "Slider alloc (bg_arr g) (bg_dummy_arr g)")
    case (Inl e) then show ?thesis using assms C by (simp add: SeriesBinGrouper_get_result_def)
  next
    case V: (Inr vsl)
    show ?thesis
    proof (cases "Slider alloc (bg_index g) (bg_dummy_index g)")
      case (Inl e) then show ?thesis using assms C V by (simp add: SeriesBinGrouper_get_result_def)
    next
      case I: (Inr isl)
      let ?st0 = "\<lparr> gs_vslider = vsl, gs_islider = isl, gs_counts = c,
                      gs_result = None, gs_initialized = False, gs_group_size = 0,
                      gs_cached = None \<rparr>"
      let ?L = "for_loop (bin_body g f) [0..<bg_ngroups g] ?st0"
      have K: "gs_counts (fst ?L) = c"
      proof (rule for_loop_invariant[where P="\<lambda>s. gs_counts s = c"])
        show "gs_counts ?st0 = c" by simp
      next
        fix i and s :: group_state assume "gs_counts s = c"
        then show "case bin_body g f i s of Next s' \<Rightarrow> gs_counts s' = c
            | Break s' \<Rightarrow> gs_counts s' = c | Raise e s' \<Rightarrow> gs_counts s' = c"
          using bin_body_counts[where g=g and f=f and i=i and st=s] by (cases "bin_body g f i s") simp_all
      qed
      obtain st exc where L: "?L = (st, exc)" by (cases ?L)
      show ?thesis using assms C V I L K
        by (auto simp: SeriesBinGrouper_get_result_def Let_def split: option.splits)
    qed
  qed
qed

lemma bin_result_exists:
  assumes c: "bin_counts g = Inr counts" "length counts = bg_ngroups g" "1 \<le> bg_ngroups g"
    and acc: "slider_accepts (bg_arr g) (bg_dummy_arr g)" "slider_accepts (bg_index g) (bg_dummy_index g)"
    and f: "returns_scalars f"
  shows "\<exists>res. fst (SeriesBinGrouper_get_result alloc convert g f) = Inr (res, counts)"
proof -
  from Slider_accepts[OF acc(1)] obtain vsl where V: "Slider alloc (bg_arr g) (bg_dummy_arr g) = Inr vsl" by blast
  from Slider_accepts[OF acc(2)] obtain isl where I: "Slider alloc (bg_index g) (bg_dummy_index g) = Inr isl" by blast
  let ?st0 = "\<lparr> gs_vslider = vsl, gs_islider = isl, gs_counts = counts,
                  gs_result = None, gs_initialized = False, gs_group_size = 0,
                  gs_cached = None \<rparr>"
  from bin_loop_scalar[OF f c(3), of ?st0] c(2)
  obtain st a where L: "for_loop (bin_body g f) [0..<bg_ngroups g] ?st0 = (st, None)"
    and a: "gs_result st = Some a" by auto
  have "fst (SeriesBinGrouper_get_result alloc convert g f) = Inr (convert a, gs_counts st)"
    using c(1) V I L a by (simp add: SeriesBinGrouper_get_result_def)
  moreover have "bin_counts g = Inr (gs_counts st)"
    using bin_result_counts[OF calculation] .
  ultimately show ?thesis using c(1) by auto
qed

text \<open>
  Claim C5. For a \<open>SeriesBinGrouper\<close> built from a series and a non-empty array of bin
  edges, the number of groups is \<open>len(edges)\<close> when the last edge equals the length of the
  data and \<open>len(edges) + 1\<close> otherwise; whenever \<open>get_result\<close> returns, the counts it
  returns have one entry per group, add up to the length of the data and start with the
  first edge; and it does return when the Sliders accept their buffers and the callback
  reduces every group to a scalar. (The order of the edges and the bound on the last one
  are not needed for these facts.)
\<close>

theorem bin_counts_sum:
  assumes init: "SeriesBinGrouper alloc ser bins (Some dummy) = Inr g" and ne: "bins \<noteq> []"
  shows "bg_ngroups g = (if last bins = shape0 (s_values ser) then length bins else length bins + 1)
       \<and> (\<forall>res counts. fst (SeriesBinGrouper_get_result alloc' convert g f) = Inr (res, counts) \<longrightarrow>
             length counts = bg_ngroups g \<and> sum_list counts = shape0 (s_values ser)
             \<and> counts ! 0 = bins ! 0)
       \<and> (slider_accepts (bg_arr g) (bg_dummy_arr g) \<and> slider_accepts (bg_index g) (bg_dummy_index g)
            \<and> returns_scalars f \<longrightarrow>
             (\<exists>res counts. fst (SeriesBinGrouper_get_result alloc' convert g f) = Inr (res, counts)))"
proof -
  note I = init_ngroups[OF init]
  from bin_counts_props[OF init ne] obtain c where
    c: "bin_counts g = Inr c" "length c = bg_ngroups g" "sum_list c = shape0 (s_values ser)"
       "c ! 0 = bins ! 0" by blast
  have G1: "1 \<le> bg_ngroups g" using I(3) ne by (auto simp: Suc_le_eq)
  have A: "bg_ngroups g = (if last bins = shape0 (s_values ser) then length bins else length bins + 1)"
    using I(3) ne by simp
  have B: "length counts = bg_ngroups g \<and> sum_list counts = shape0 (s_values ser) \<and> counts ! 0 = bins ! 0"
    if "fst (SeriesBinGrouper_get_result alloc' convert g f) = Inr (res, counts)" for res counts
    using bin_result_counts[OF that] c by simp
  have C: "\<exists>res counts. fst (SeriesBinGrouper_get_result alloc' convert g f) = Inr (res, counts)"
    if "slider_accepts (bg_arr g) (bg_dummy_arr g)" "slider_accepts (bg_index g) (bg_dummy_index g)"
       "returns_scalars f"
    using bin_result_exists[OF c(1,2) G1 that] by blast
  show ?thesis using A B C by blast
qed

theorem bin_counts_sum_witness:
  "SeriesBinGrouper no_alloc demo_series [1, 3] (Some demo_dummy) = Inr demo_bin_grouper
   \<and> fst (SeriesBinGrouper_get_result no_alloc no_convert demo_bin_grouper count_callback)
       = Inr ([Some (Scalar 0), Some (Scalar 1), Some (Scalar 2)], [1, 2, 1])
   \<and> sum_list [1, 2, 1] = shape0 (s_values demo_series)
   \<and> bg_ngroups demo_bin_grouper = length [1 :: int, 3] + 1"
proof -
  have init: "SeriesBinGrouper no_alloc demo_series [1, 3] (Some demo_dummy) = Inr demo_bin_grouper"
    by (simp add: SeriesBinGrouper_def check_dummy_def demo_series_def demo_dummy_def
        demo_bin_grouper_def demo_values_def demo_dummy_values_def demo_dummy_index_def
        demo_index_values_def Let_def)
  have run: "fst (SeriesBinGrouper_get_result no_alloc no_convert demo_bin_grouper count_callback)
       = Inr ([Some (Scalar 0), Some (Scalar 1), Some (Scalar 2)], [1, 2, 1])"
    by (simp add: SeriesBinGrouper_get_result_def bin_counts_def counts_body_def getitem_def
        setitem_def Slider_def bin_body_def call_group_def construct_def extract_result_def
        get_result_array_def set_length_def advance_def reset_def count_callback_def
        no_convert_def demo_bin_grouper_def demo_values_def demo_dummy_values_def
        demo_dummy_index_def demo_index_values_def Let_def upt_rec numeral_3_eq_3
        numeral_2_eq_2)
  have ne: "[1 :: int, 3] \<noteq> []" by simp
  have len: "shape0 (s_values demo_series) = 4" by (simp add: demo_series_def demo_values_def)
  have "bg_ngroups demo_bin_grouper
          = (if last [1, 3] = shape0 (s_values demo_series) then length [1 :: int, 3]
             else length [1 :: int, 3] + 1)"
    using bin_counts_sum [OF init ne, of no_alloc no_convert count_callback] by (rule conjunct1)
  then have G: "bg_ngroups demo_bin_grouper = length [1 :: int, 3] + 1"
    unfolding len by simp
  have S: "sum_list [1, 2, 1] = shape0 (s_values demo_series)"
    unfolding len by simp
  show ?thesis by (intro conjI init run S G)
qed

lemma sorted_runs_contiguous:
  assumes "sorted L" shows "runs_contiguous L"
  unfolding runs_contiguous_def
proof (intro allI impI)
  fix a b c
  assume H: "a < b \<and> b < c \<and> c < length L \<and> L ! a = L ! c \<and> L ! a \<noteq> - 1"
  have ab: "a \<le> b" "b < length L" "b \<le> c" "c < length L" using H by simp_all
  have "L ! a \<le> L ! b" by (rule sorted_nth_mono[OF assms ab(1,2)])
  moreover have "L ! b \<le> L ! c" by (rule sorted_nth_mono[OF assms ab(3,4)])
  moreover have "L ! a = L ! c" using H by simp
  ultimately show "L ! b = L ! a" by linarith
qed

lemma count_take_run:
  assumes "s \<le> i" "i \<le> length L" "\<forall>j. s \<le> j \<and> j < i \<longrightarrow> L ! j = v"
  shows "count_list (take i L) x = count_list (take s L) x + (if v = x then i - s else 0)"
  using assms
proof (induction "i - s" arbitrary: i)
  case 0
  then show ?case by simp
next
  case (Suc d)
  then obtain i' where i': "i = Suc i'" "s \<le> i'" "d = i' - s" by (cases i) auto
  have "i' < length L" using Suc.prems i' by simp
  then have T: "take i L = take i' L @ [L ! i']" using i' by (simp add: take_Suc_conv_app_nth)
  have "count_list (take i' L) x = count_list (take s L) x + (if v = x then i' - s else 0)"
    using Suc.hyps(1)[of i'] i' Suc.prems by simp
  moreover have "L ! i' = v" using Suc.prems i' by simp
  ultimately show ?case using T i' by (simp add: Suc_diff_le)
qed

lemma no_earlier_occurrence:
  assumes rc: "runs_contiguous L" and s: "0 < s" "s < length L" "L ! (s - 1) \<noteq> L ! s"
    and v: "L ! s \<noteq> - 1"
  shows "count_list (take s L) (L ! s) = 0"
proof -
  have "L ! j \<noteq> L ! s" if "j < s" for j
  proof
    assume e: "L ! j = L ! s"
    show False
    proof (cases "j = s - 1")
      case True then show False using e s by simp
    next
      case False
      then have "j < s - 1" "s - 1 < s" using that s by simp_all
      then have "L ! (s - 1) = L ! j"
        using rc e v s unfolding runs_contiguous_def by (metis)
      then show False using e s by simp
    qed
  qed
  then have "L ! s \<notin> set (take s L)"
    using s by (auto simp: in_set_conv_nth)
  then show ?thesis by (simp add: count_list_0_iff)
qed

lemma call_group_frame:
  assumes "call_group typ ityp name f i ng st = (out, st1)"
  shows "gs_counts st1 = gs_counts st" and "gs_group_size st1 = gs_group_size st"
  using assms
  by (auto simp: call_group_def Let_def split: option.splits prod.splits sum.splits if_splits)

lemma label_body_unfold:
  assumes "i < length (sg_labels g)" "n = length (sg_labels g)"
  shows "label_body g f n i st0 =
     (let st = st0\<lparr> gs_group_size := gs_group_size st0 + 1 \<rparr>; lab = sg_labels g ! i
      in if \<not> (i = n - 1 \<or> lab \<noteq> sg_labels g ! (i + 1)) then Next st
         else if lab = - 1
         then Next (st\<lparr> gs_islider := advance (gs_islider st) (gs_group_size st),
                        gs_vslider := advance (gs_vslider st) (gs_group_size st),
                        gs_group_size := 0 \<rparr>)
         else
           (case call_group (sg_typ g) (sg_ityp g) (sg_name g) f i (sg_ngroups g) st of
              (Inl e, st1) \<Rightarrow> Raise e st1
            | (Inr res, st1) \<Rightarrow>
                (case gs_result st1 of
                   None \<Rightarrow> Raise UnboundLocalError st1
                 | Some result \<Rightarrow>
                     (case setitem result lab (Some res) of
                        Inl e \<Rightarrow> Raise e st1
                      | Inr result' \<Rightarrow>
                          (case setitem (gs_counts st1) lab (gs_group_size st1) of
                             Inl e \<Rightarrow> Raise e (st1\<lparr> gs_result := Some result' \<rparr>)
                           | Inr counts' \<Rightarrow>
                               Next (st1\<lparr> gs_result := Some result',
                                          gs_counts := counts',
                                          gs_islider := advance (gs_islider st1) (gs_group_size st1),
                                          gs_vslider := advance (gs_vslider st1) (gs_group_size st1),
                                          gs_group_size := 0 \<rparr>))))))"
proof -
  have "i = n - 1 \<or> Suc i < length (sg_labels g)" using assms by auto
  then show ?thesis using assms
    by (auto simp: label_body_def getitem_def Let_def split: sum.splits bool.splits)
qed

lemma run_invD:
  assumes "run_inv L G i s st"
  shows "length (gs_counts st) = G" "s \<le> i" "gs_group_size st = int (i - s)"
    "\<And>j. s \<le> j \<Longrightarrow> j < i \<Longrightarrow> L ! j = L ! i"
    "s < i \<Longrightarrow> i < length L"
    "0 < s \<Longrightarrow> s < length L \<Longrightarrow> L ! (s - 1) \<noteq> L ! s"
    "\<And>k. k < G \<Longrightarrow> gs_counts st ! k = int (count_list (take s L) (int k))"
proof -
  from assms have A: "length (gs_counts st) = G \<and> s \<le> i \<and> gs_group_size st = int (i - s)
      \<and> (\<forall>j. s \<le> j \<and> j < i \<longrightarrow> L ! j = L ! i)
      \<and> (s < i \<longrightarrow> i < length L)
      \<and> (0 < s \<and> s < length L \<longrightarrow> L ! (s - 1) \<noteq> L ! s)
      \<and> (\<forall>k<G. gs_counts st ! k = int (count_list (take s L) (int k)))"
    unfolding run_inv_def .
  show "length (gs_counts st) = G" using A by blast
  show "s \<le> i" using A by blast
  show "gs_group_size st = int (i - s)" using A by blast
  show "\<And>j. s \<le> j \<Longrightarrow> j < i \<Longrightarrow> L ! j = L ! i" using A by blast
  show "s < i \<Longrightarrow> i < length L" using A by blast
  show "0 < s \<Longrightarrow> s < length L \<Longrightarrow> L ! (s - 1) \<noteq> L ! s" using A by blast
  show "\<And>k. k < G \<Longrightarrow> gs_counts st ! k = int (count_list (take s L) (int k))" using A by blast
qed

lemma run_inv_close:
  assumes len: "length c = G"
    and i: "i < length L"
    and bd: "i = length L - 1 \<or> L ! i \<noteq> L ! (i + 1)"
    and cnt: "\<And>k. k < G \<Longrightarrow> c ! k = int (count_list (take (Suc i) L) (int k))"
    and st: "gs_counts st = c" "gs_group_size st = 0"
  shows "label_inv L G (Suc i) st"
proof -
  have "Suc i < length L \<longrightarrow> L ! i \<noteq> L ! Suc i" using bd by auto
  then have p: "0 < Suc i \<and> Suc i < length L \<longrightarrow> L ! (Suc i - 1) \<noteq> L ! Suc i" by simp
  have l: "length (gs_counts st) = G" using len st by simp
  have g: "gs_group_size st = int (Suc i - Suc i)" using st by simp
  have r: "\<forall>j. Suc i \<le> j \<and> j < Suc i \<longrightarrow> L ! j = L ! Suc i" by simp
  have d: "Suc i < Suc i \<longrightarrow> Suc i < length L" by simp
  have e: "\<forall>k<G. gs_counts st ! k = int (count_list (take (Suc i) L) (int k))"
    using cnt st by simp
  have "run_inv L G (Suc i) (Suc i) st"
    unfolding run_inv_def by (intro conjI l le_refl g r d p e)
  then show ?thesis unfolding label_inv_def ..
qed

lemma run_inv_extend:
  assumes inv: "run_inv L G i s st"
    and nb: "Suc i < length L" "L ! i = L ! Suc i"
    and st': "gs_counts st' = gs_counts st" "gs_group_size st' = gs_group_size st + 1"
  shows "label_inv L G (Suc i) st'"
proof -
  note D = run_invD[OF inv]
  have b: "gs_group_size st' = int (Suc i - s)" using D(2,3) st' by (simp add: Suc_diff_le)
  have c: "\<forall>j. s \<le> j \<and> j < Suc i \<longrightarrow> L ! j = L ! Suc i"
    using D(4) nb by (auto simp: less_Suc_eq)
  have e: "\<forall>k<G. gs_counts st' ! k = int (count_list (take s L) (int k))"
    using D(7) st' by simp
  have f: "length (gs_counts st') = G" using D(1) st' by simp
  have p: "0 < s \<and> s < length L \<longrightarrow> L ! (s - 1) \<noteq> L ! s" using D(6) by simp
  have a: "s \<le> Suc i" using D(2) by simp
  have d: "s < Suc i \<longrightarrow> Suc i < length L" using nb by simp
  have "run_inv L G (Suc i) s st'"
    unfolding run_inv_def by (intro conjI f a b c d p e)
  then show ?thesis unfolding label_inv_def ..
qed

lemma run_take_count:
  assumes inv: "run_inv L G i s st" and i: "i < length L"
  shows "count_list (take (Suc i) L) x
        = count_list (take s L) x + (if L ! i = x then Suc i - s else 0)"
proof -
  note D = run_invD[OF inv]
  have run': "\<forall>j. s \<le> j \<and> j < Suc i \<longrightarrow> L ! j = L ! i"
    using D(4) by (auto simp: less_Suc_eq)
  have a: "s \<le> Suc i" using D(2) by simp
  have b: "Suc i \<le> length L" using i by simp
  show ?thesis
    by (rule count_take_run[OF a b run'])
qed

lemma run_no_earlier:
  assumes inv: "run_inv L G i s st" and i: "i < length L"
    and rc: "runs_contiguous L" and v: "L ! i \<noteq> - 1"
  shows "count_list (take s L) (L ! i) = 0"
proof (cases "s = 0")
  case True then show ?thesis by simp
next
  case False
  note D = run_invD[OF inv]
  have ss: "L ! s = L ! i" using D(2) D(4)[of s] by (cases "s = i") simp_all
  have sl: "s < length L" using D(2) i by simp
  have "L ! (s - 1) \<noteq> L ! s" using D(6) False sl by simp
  then have "count_list (take s L) (L ! s) = 0"
    using no_earlier_occurrence[OF rc _ sl] False v ss by simp
  then show ?thesis using ss by simp
qed

lemma label_step:
  assumes rc: "runs_contiguous (sg_labels g)"
    and valid: "labels_valid (sg_ngroups g) (sg_labels g)"
    and n: "n = length (sg_labels g)" and i: "i < n"
    and inv: "label_inv (sg_labels g) (sg_ngroups g) i st"
  shows "case label_body g f n i st of
           Next s' \<Rightarrow> label_inv (sg_labels g) (sg_ngroups g) (Suc i) s'
         | Break s' \<Rightarrow> True
         | Raise e s' \<Rightarrow> True"
proof -
  let ?L = "sg_labels g" and ?G = "sg_ngroups g"
  let ?st = "st\<lparr> gs_group_size := gs_group_size st + 1 \<rparr>"
  let ?lab = "?L ! i"
  from inv obtain s where R: "run_inv ?L ?G i s st" unfolding label_inv_def ..
  note D = run_invD[OF R]
  have iL: "i < length ?L" using i n by simp
  note take_cnt = run_take_count[OF R iL]
  note U = label_body_unfold[OF iL n, of f st, unfolded Let_def]
  show ?thesis
  proof (cases "i = n - 1 \<or> ?lab \<noteq> ?L ! (i + 1)")
    case False
    then have nb: "Suc i < length ?L" "?L ! i = ?L ! Suc i" using i n by auto
    have "label_inv ?L ?G (Suc i) ?st"
      by (rule run_inv_extend[OF R nb]) simp_all
    moreover have "label_body g f n i st = Next ?st" using False U by simp
    ultimately show ?thesis by simp
  next
    case bd: True
    then have bd': "i = length ?L - 1 \<or> ?L ! i \<noteq> ?L ! (i + 1)" using n by simp
    show ?thesis
    proof (cases "?lab = - 1")
      case True
      let ?s' = "?st\<lparr> gs_islider := advance (gs_islider ?st) (gs_group_size ?st),
                        gs_vslider := advance (gs_vslider ?st) (gs_group_size ?st),
                        gs_group_size := 0 \<rparr>"
      have c: "gs_counts st ! k = int (count_list (take (Suc i) ?L) (int k))" if "k < ?G" for k
        using D(7)[OF that] take_cnt[of "int k"] True by simp
      have "label_inv ?L ?G (Suc i) ?s'"
        by (rule run_inv_close[where c="gs_counts st", OF D(1) iL bd']) (simp_all add: c)
      moreover have "label_body g f n i st = Next ?s'" using bd True U by simp
      ultimately show ?thesis by simp
    next
      case False
      have "?lab \<in> set ?L" using iL by simp
      with valid False have lab: "0 \<le> ?lab" "?lab < int ?G" unfolding labels_valid_def by auto
      obtain out st1 where C: "call_group (sg_typ g) (sg_ityp g) (sg_name g) f i ?G ?st = (out, st1)"
        by (cases "call_group (sg_typ g) (sg_ityp g) (sg_name g) f i ?G ?st")
      have F: "gs_counts st1 = gs_counts st" "gs_group_size st1 = gs_group_size st + 1"
        using call_group_frame[OF C] by simp_all
      have zero: "count_list (take s ?L) ?lab = 0"
        by (rule run_no_earlier[OF R iL rc False])
      let ?c' = "(gs_counts st)[nat ?lab := int (i - s) + 1]"
      have c': "?c' ! k = int (count_list (take (Suc i) ?L) (int k))" if k: "k < ?G" for k
      proof (cases "k = nat ?lab")
        case True
        then have "int k = ?lab" using lab by simp
        then show ?thesis using True take_cnt[of ?lab] zero k D(1,2)
          by (simp add: Suc_diff_le)
      next
        case False
        then have "int k \<noteq> ?lab" using lab by auto
        then show ?thesis using False take_cnt[of "int k"] D(7)[OF k] by simp
      qed
      have S: "setitem (gs_counts st1) ?lab (gs_group_size st1) = Inr ?c'"
        using F lab D(1,3) by (simp add: setitem_def)
      have lenc: "length ?c' = ?G" using D(1) by simp
      show ?thesis
      proof (cases out)
        case (Inl e)
        then have "label_body g f n i st = Raise e st1" using bd False U C by simp
        then show ?thesis by simp
      next
        case (Inr res)
        show ?thesis
        proof (cases "gs_result st1")
          case None
          then have "label_body g f n i st = Raise UnboundLocalError st1"
            using bd False U C Inr by simp
          then show ?thesis by simp
        next
          case (Some result)
          show ?thesis
          proof (cases "setitem result ?lab (Some res)")
            case (Inl e)
            then have "label_body g f n i st = Raise e st1"
              using bd False U C Inr Some by simp
            then show ?thesis by simp
          next
            case R': (Inr result')
            let ?s' = "st1\<lparr> gs_result := Some result', gs_counts := ?c',
                            gs_islider := advance (gs_islider st1) (gs_group_size st1),
                            gs_vslider := advance (gs_vslider st1) (gs_group_size st1),
                            gs_group_size := 0 \<rparr>"
            have "label_inv ?L ?G (Suc i) ?s'"
              by (rule run_inv_close[where c="?c'", OF lenc iL bd']) (simp_all add: c')
            moreover have "label_body g f n i st = Next ?s'"
              using bd False U C Inr Some R' S by simp
            ultimately show ?thesis by simp
          qed
        qed
      qed
    qed
  qed
qed

lemma label_loop_counts:
  assumes rc: "runs_contiguous (sg_labels g)"
    and valid: "labels_valid (sg_ngroups g) (sg_labels g)"
    and n: "n = length (sg_labels g)"
    and st0: "gs_counts st0 = replicate (sg_ngroups g) 0" "gs_group_size st0 = 0"
  shows "snd (for_loop (label_body g f n) [0..<n] st0) = None \<longrightarrow>
           length (gs_counts (fst (for_loop (label_body g f n) [0..<n] st0))) = sg_ngroups g
           \<and> (\<forall>k<sg_ngroups g. gs_counts (fst (for_loop (label_body g f n) [0..<n] st0)) ! k
                  = int (count_list (sg_labels g) (int k)))"
proof (rule for_loop_upt[where I="\<lambda>i st. label_inv (sg_labels g) (sg_ngroups g) i st"
      and Q="\<lambda>st exc. exc = None \<longrightarrow> length (gs_counts st) = sg_ngroups g
           \<and> (\<forall>k<sg_ngroups g. gs_counts st ! k = int (count_list (sg_labels g) (int k)))"])
  have "run_inv (sg_labels g) (sg_ngroups g) 0 0 st0"
    unfolding run_inv_def using st0 by simp
  then show "label_inv (sg_labels g) (sg_ngroups g) 0 st0" unfolding label_inv_def ..
next
  show "0 \<le> n" by simp
next
  fix st assume "label_inv (sg_labels g) (sg_ngroups g) n st"
  then obtain s where R: "run_inv (sg_labels g) (sg_ngroups g) n s st" unfolding label_inv_def ..
  note D = run_invD[OF R]
  have "s = n" using D(2) D(5) n by (cases "s < n") simp_all
  then have "gs_counts st ! k = int (count_list (sg_labels g) (int k))" if "k < sg_ngroups g" for k
    using D(7)[OF that] n by simp
  then show "None = None \<longrightarrow> length (gs_counts st) = sg_ngroups g
           \<and> (\<forall>k<sg_ngroups g. gs_counts st ! k = int (count_list (sg_labels g) (int k)))"
    using D(1) by simp
next
  fix i st
  assume i: "i < n" and inv: "label_inv (sg_labels g) (sg_ngroups g) i st"
  from label_step[OF rc valid n i inv, of f]
  show "case label_body g f n i st of
          Next s' \<Rightarrow> label_inv (sg_labels g) (sg_ngroups g) (Suc i) s'
        | Break s' \<Rightarrow> None = None \<longrightarrow> length (gs_counts s') = sg_ngroups g
           \<and> (\<forall>k<sg_ngroups g. gs_counts s' ! k = int (count_list (sg_labels g) (int k)))
        | Raise e s' \<Rightarrow> Some e = None \<longrightarrow> length (gs_counts s') = sg_ngroups g
           \<and> (\<forall>k<sg_ngroups g. gs_counts s' ! k = int (count_list (sg_labels g) (int k)))"
  proof (cases "label_body g f n i st")
    case (Break s')
    have "label_body g f n i st \<noteq> Break s'"
      using label_body_unfold[of i g n f st] i n
      by (auto simp: Let_def split: prod.splits sum.splits option.splits)
    then show ?thesis using Break by simp
  qed simp_all
qed

lemma indicator_sum:
  "(\<Sum>k\<leftarrow>[0..<G]. if x = int k then 1 else 0) = (if 0 \<le> x \<and> x < int G then 1 else (0::int))"
  by (induction G) auto

lemma count_sum:
  assumes "labels_valid G L"
  shows "(\<Sum>k\<leftarrow>[0..<G]. int (count_list L (int k))) + int (count_list L (- 1)) = int (length L)"
  using assms
proof (induction L)
  case Nil
  then show ?case by (simp add: sum_list_0)
next
  case (Cons x xs)
  then have v: "labels_valid G xs" and x: "x = - 1 \<or> (0 \<le> x \<and> x < int G)"
    unfolding labels_valid_def by simp_all
  have "(\<Sum>k\<leftarrow>[0..<G]. int (count_list (x # xs) (int k)))
        = (\<Sum>k\<leftarrow>[0..<G]. int (count_list xs (int k)) + (if x = int k then 1 else 0))"
    by (rule arg_cong[where f=sum_list], rule map_cong) simp_all
  also have "\<dots> = (\<Sum>k\<leftarrow>[0..<G]. int (count_list xs (int k))) + (\<Sum>k\<leftarrow>[0..<G]. if x = int k then 1 else 0)"
    by (simp add: sum_list_addf)
  finally have S: "(\<Sum>k\<leftarrow>[0..<G]. int (count_list (x # xs) (int k)))
        = (\<Sum>k\<leftarrow>[0..<G]. int (count_list xs (int k))) + (if 0 \<le> x \<and> x < int G then 1 else 0)"
    by (simp add: indicator_sum)
  show ?case using Cons.IH[OF v] S x by auto
qed

lemma called_before_Suc:
  "called_before L (Suc i) \<longleftrightarrow>
     called_before L i \<or> (L ! i \<noteq> - 1 \<and> (Suc i = length L \<or> L ! i \<noteq> L ! Suc i))"
  unfolding called_before_def by (auto simp: less_Suc_eq)

lemma called_before_from:
  assumes "j < length L" "L ! j \<noteq> - 1"
  shows "called_before L (length L)"
  using assms
proof (induction "length L - j" arbitrary: j)
  case 0
  then show ?case by simp
next
  case (Suc d)
  show ?case
  proof (cases "Suc j = length L \<or> L ! j \<noteq> L ! Suc j")
    case True
    then show ?thesis unfolding called_before_def using Suc.prems by blast
  next
    case False
    then have "Suc j < length L" "L ! Suc j \<noteq> - 1" using Suc.prems by auto
    moreover have "d = length L - Suc j" using Suc.hyps(2) by simp
    ultimately show ?thesis using Suc.hyps(1)[of "Suc j"] by simp
  qed
qed

lemma called_before_end:
  assumes "\<exists>x\<in>set L. x \<noteq> - 1"
  shows "called_before L (length L)"
proof -
  from assms obtain j0 where "j0 < length L" "L ! j0 \<noteq> - 1"
    by (auto simp: in_set_conv_nth)
  then show ?thesis by (rule called_before_from)
qed

lemma label_loop_scalar:
  assumes f: "returns_scalars f"
    and valid: "labels_valid (sg_ngroups g) (sg_labels g)"
    and n: "n = length (sg_labels g)"
    and st0: "length (gs_counts st0) = sg_ngroups g" "\<not> gs_initialized st0"
  shows "snd (for_loop (label_body g f n) [0..<n] st0) = None
         \<and> (called_before (sg_labels g) n \<longrightarrow>
              (\<exists>a. gs_result (fst (for_loop (label_body g f n) [0..<n] st0)) = Some a))"
proof (rule for_loop_upt[where I="\<lambda>i st. length (gs_counts st) = sg_ngroups g
          \<and> (gs_initialized st \<longrightarrow> (\<exists>a. gs_result st = Some a \<and> length a = sg_ngroups g))
          \<and> (called_before (sg_labels g) i \<longrightarrow> gs_initialized st)"
      and Q="\<lambda>st exc. exc = None \<and> (called_before (sg_labels g) n \<longrightarrow> (\<exists>a. gs_result st = Some a))"])
  show "length (gs_counts st0) = sg_ngroups g
          \<and> (gs_initialized st0 \<longrightarrow> (\<exists>a. gs_result st0 = Some a \<and> length a = sg_ngroups g))
          \<and> (called_before (sg_labels g) 0 \<longrightarrow> gs_initialized st0)"
    using st0 by (simp add: called_before_def)
next
  show "0 \<le> n" by simp
next
  fix st :: group_state
  assume "length (gs_counts st) = sg_ngroups g
          \<and> (gs_initialized st \<longrightarrow> (\<exists>a. gs_result st = Some a \<and> length a = sg_ngroups g))
          \<and> (called_before (sg_labels g) n \<longrightarrow> gs_initialized st)"
  then show "None = None \<and> (called_before (sg_labels g) n \<longrightarrow> (\<exists>a. gs_result st = Some a))"
    by auto
next
  fix i and st :: group_state
  let ?L = "sg_labels g" and ?G = "sg_ngroups g"
  assume i: "i < n" and I: "length (gs_counts st) = ?G
          \<and> (gs_initialized st \<longrightarrow> (\<exists>a. gs_result st = Some a \<and> length a = ?G))
          \<and> (called_before ?L i \<longrightarrow> gs_initialized st)"
  let ?st = "st\<lparr> gs_group_size := gs_group_size st + 1 \<rparr>"
  let ?lab = "?L ! i"
  let ?I = "\<lambda>i st. length (gs_counts st) = ?G
          \<and> (gs_initialized st \<longrightarrow> (\<exists>a. gs_result st = Some a \<and> length a = ?G))
          \<and> (called_before ?L i \<longrightarrow> gs_initialized st)"
  have iL: "i < length ?L" using i n by simp
  note U = label_body_unfold[OF iL n, of f st, unfolded Let_def]
  have "\<exists>s'. label_body g f n i st = Next s' \<and> ?I (Suc i) s'"
  proof (cases "i = n - 1 \<or> ?lab \<noteq> ?L ! (i + 1)")
    case False
    then have "\<not> (Suc i = length ?L \<or> ?L ! i \<noteq> ?L ! Suc i)" using i n by auto
    then have "called_before ?L (Suc i) \<longleftrightarrow> called_before ?L i"
      by (simp add: called_before_Suc)
    moreover have "label_body g f n i st = Next ?st" using False U by simp
    ultimately show ?thesis using I by simp
  next
    case bd: True
    show ?thesis
    proof (cases "?lab = - 1")
      case True
      let ?s' = "?st\<lparr> gs_islider := advance (gs_islider ?st) (gs_group_size ?st),
                        gs_vslider := advance (gs_vslider ?st) (gs_group_size ?st),
                        gs_group_size := 0 \<rparr>"
      have "called_before ?L (Suc i) \<longleftrightarrow> called_before ?L i"
        using True by (simp add: called_before_Suc)
      moreover have "label_body g f n i st = Next ?s'" using bd True U by simp
      ultimately show ?thesis using I by simp
    next
      case False
      have "?lab \<in> set ?L" using iL by simp
      with valid False have lab: "0 \<le> ?lab" "?lab < int ?G" unfolding labels_valid_def by auto
      from call_group_scalar[OF f, of "sg_typ g" "sg_ityp g" "sg_name g" i ?G ?st]
      obtain x st1 where C: "call_group (sg_typ g) (sg_ityp g) (sg_name g) f i ?G ?st = (Inr (Scalar x), st1)"
        and c: "gs_counts st1 = gs_counts st" and ini: "gs_initialized st1"
        and r: "gs_result st1 = (if gs_initialized st then gs_result st else Some (replicate ?G None))"
        by auto
      obtain a where a: "gs_result st1 = Some a" "length a = ?G"
        using r I by (cases "gs_initialized st") auto
      let ?s' = "st1\<lparr> gs_result := Some (a[nat ?lab := Some (Scalar x)]),
                      gs_counts := (gs_counts st1)[nat ?lab := gs_group_size st1],
                      gs_islider := advance (gs_islider st1) (gs_group_size st1),
                      gs_vslider := advance (gs_vslider st1) (gs_group_size st1),
                      gs_group_size := 0 \<rparr>"
      have S1: "setitem a ?lab (Some (Scalar x)) = Inr (a[nat ?lab := Some (Scalar x)])"
        using lab a by (simp add: setitem_def)
      have S2: "setitem (gs_counts st1) ?lab (gs_group_size st1)
                 = Inr ((gs_counts st1)[nat ?lab := gs_group_size st1])"
        using lab c I by (simp add: setitem_def)
      have "label_body g f n i st = Next ?s'"
        using bd False U C a S1 S2 by simp
      moreover have "?I (Suc i) ?s'" using c ini a I by simp
      ultimately show ?thesis by blast
    qed
  qed
  then obtain s' where B: "label_body g f n i st = Next s'" and I': "?I (Suc i) s'" by blast
  show "case label_body g f n i st of
          Next s' \<Rightarrow> ?I (Suc i) s'
        | Break s' \<Rightarrow> None = None \<and> (called_before ?L n \<longrightarrow> (\<exists>a. gs_result s' = Some a))
        | Raise e s' \<Rightarrow> Some e = None \<and> (called_before ?L n \<longrightarrow> (\<exists>a. gs_result s' = Some a))"
    unfolding B using I' by simp
qed

lemma label_result_counts:
  assumes rc: "runs_contiguous (sg_labels g)"
    and valid: "labels_valid (sg_ngroups g) (sg_labels g)"
    and len: "int (length (sg_labels g)) = shape0 (sg_arr g)"
    and ret: "fst (SeriesGrouper_get_result alloc convert g f) = Inr (res, counts)"
  shows "length counts = sg_ngroups g"
    and "\<forall>k<sg_ngroups g. counts ! k = int (count_list (sg_labels g) (int k))"
proof -
  let ?n = "nat (shape0 (sg_arr g))"
  have n: "?n = length (sg_labels g)" using len by simp
  obtain vsl where V: "Slider alloc (sg_arr g) (sg_dummy_arr g) = Inr vsl"
    using ret by (cases "Slider alloc (sg_arr g) (sg_dummy_arr g)")
                 (simp_all add: SeriesGrouper_get_result_def Let_def)
  obtain isl where I: "Slider alloc (sg_index g) (sg_dummy_index g) = Inr isl"
    using ret V by (cases "Slider alloc (sg_index g) (sg_dummy_index g)")
                   (simp_all add: SeriesGrouper_get_result_def Let_def)
  let ?st0 = "\<lparr> gs_vslider = vsl, gs_islider = isl, gs_counts = replicate (sg_ngroups g) 0,
                    gs_result = None, gs_initialized = False, gs_group_size = 0,
                    gs_cached = None \<rparr>"
  let ?L = "for_loop (label_body g f ?n) [0..<?n] ?st0"
  obtain st exc where L: "?L = (st, exc)" by (cases ?L)
  have e: "exc = None" and c: "counts = gs_counts st"
    using ret V I L by (auto simp: SeriesGrouper_get_result_def Let_def split: option.splits)
  have "snd ?L = None \<longrightarrow> length (gs_counts (fst ?L)) = sg_ngroups g
           \<and> (\<forall>k<sg_ngroups g. gs_counts (fst ?L) ! k = int (count_list (sg_labels g) (int k)))"
    by (rule label_loop_counts[OF rc valid n]) simp_all
  then have "length (gs_counts st) = sg_ngroups g
           \<and> (\<forall>k<sg_ngroups g. gs_counts st ! k = int (count_list (sg_labels g) (int k)))"
    using L e by simp
  then show "length counts = sg_ngroups g"
    and "\<forall>k<sg_ngroups g. counts ! k = int (count_list (sg_labels g) (int k))"
    using c by simp_all
qed

lemma label_result_exists:
  assumes valid: "labels_valid (sg_ngroups g) (sg_labels g)"
    and len: "int (length (sg_labels g)) = shape0 (sg_arr g)"
    and acc: "slider_accepts (sg_arr g) (sg_dummy_arr g)" "slider_accepts (sg_index g) (sg_dummy_index g)"
    and f: "returns_scalars f"
    and some: "\<exists>x\<in>set (sg_labels g). x \<noteq> - 1"
  shows "\<exists>res counts. fst (SeriesGrouper_get_result alloc convert g f) = Inr (res, counts)"
proof -
  let ?n = "nat (shape0 (sg_arr g))"
  have n: "?n = length (sg_labels g)" using len by simp
  from Slider_accepts[OF acc(1)] obtain vsl where V: "Slider alloc (sg_arr g) (sg_dummy_arr g) = Inr vsl" by blast
  from Slider_accepts[OF acc(2)] obtain isl where I: "Slider alloc (sg_index g) (sg_dummy_index g) = Inr isl" by blast
  let ?st0 = "\<lparr> gs_vslider = vsl, gs_islider = isl, gs_counts = replicate (sg_ngroups g) 0,
                    gs_result = None, gs_initialized = False, gs_group_size = 0,
                    gs_cached = None \<rparr>"
  let ?L = "for_loop (label_body g f ?n) [0..<?n] ?st0"
  have "snd ?L = None \<and> (called_before (sg_labels g) ?n \<longrightarrow> (\<exists>a. gs_result (fst ?L) = Some a))"
    by (rule label_loop_scalar[OF f valid n]) simp_all
  moreover have "called_before (sg_labels g) ?n"
    using called_before_end[OF some] n by simp
  moreover obtain st exc where L: "?L = (st, exc)" by (cases ?L)
  ultimately obtain a where "exc = None" "gs_result st = Some a" by auto
  then show ?thesis using V I L
    by (simp add: SeriesGrouper_get_result_def Let_def)
qed

lemma counts_sum:
  assumes valid: "labels_valid G L" and len: "length counts = G"
    and c: "\<forall>k<G. counts ! k = int (count_list L (int k))"
  shows "sum_list counts + int (count_list L (- 1)) = int (length L)"
proof -
  have "counts = map (\<lambda>k. int (count_list L (int k))) [0..<G]"
    by (rule nth_equalityI) (use len c in simp_all)
  then show ?thesis using count_sum[OF valid] by simp
qed

text \<open>
  Claim C6, as amended. For every label array of the length of the values, whose entries
  are \<open>-1\<close> or a group id, and in which the rows of each group are consecutive (as they are
  when the labels are sorted): whenever \<open>SeriesGrouper.get_result\<close> returns, the count of
  every group is the number of rows that carry its label, so rows labelled \<open>-1\<close> are in no
  count, and the counts plus the number of rows labelled \<open>-1\<close> add up to the length of the
  values. It does return when the Sliders accept their buffers, the callback reduces every
  group to a scalar and some row is not labelled \<open>-1\<close>.
\<close>

theorem label_counts_sum:
  assumes valid: "labels_valid (sg_ngroups g) (sg_labels g)"
    and len: "int (length (sg_labels g)) = shape0 (sg_arr g)"
    and rc: "runs_contiguous (sg_labels g)"
  shows "(\<forall>res counts. fst (SeriesGrouper_get_result alloc convert g f) = Inr (res, counts) \<longrightarrow>
            length counts = sg_ngroups g
            \<and> (\<forall>k<sg_ngroups g. counts ! k = int (count_list (sg_labels g) (int k)))
            \<and> sum_list counts + int (count_list (sg_labels g) (- 1)) = shape0 (sg_arr g))
       \<and> (slider_accepts (sg_arr g) (sg_dummy_arr g) \<and> slider_accepts (sg_index g) (sg_dummy_index g)
            \<and> returns_scalars f \<and> (\<exists>x\<in>set (sg_labels g). x \<noteq> - 1) \<longrightarrow>
            (\<exists>res counts. fst (SeriesGrouper_get_result alloc convert g f) = Inr (res, counts)))"
proof -
  have A: "length counts = sg_ngroups g
            \<and> (\<forall>k<sg_ngroups g. counts ! k = int (count_list (sg_labels g) (int k)))
            \<and> sum_list counts + int (count_list (sg_labels g) (- 1)) = shape0 (sg_arr g)"
    if ret: "fst (SeriesGrouper_get_result alloc convert g f) = Inr (res, counts)" for res counts
  proof -
    note R = label_result_counts[OF rc valid len ret]
    have "sum_list counts + int (count_list (sg_labels g) (- 1)) = int (length (sg_labels g))"
      by (rule counts_sum[OF valid R])
    then show ?thesis using R len by simp
  qed
  have B: "\<exists>res counts. fst (SeriesGrouper_get_result alloc convert g f) = Inr (res, counts)"
    if "slider_accepts (sg_arr g) (sg_dummy_arr g)" "slider_accepts (sg_index g) (sg_dummy_index g)"
       "returns_scalars f" "\<exists>x\<in>set (sg_labels g). x \<noteq> - 1"
    by (rule label_result_exists[OF valid len that])
  show ?thesis using A B by blast
qed

lemmas label_run_defs =
  SeriesGrouper_get_result_def label_body_def getitem_def setitem_def Slider_def call_group_def
  construct_def extract_result_def get_result_array_def set_length_def advance_def reset_def
  count_callback_def no_convert_def demo_values_def demo_dummy_values_def demo_dummy_index_def
  demo_index_values_def Let_def upt_rec numeral_3_eq_3 numeral_2_eq_2

theorem label_counts_sum_witness:
  "labels_valid (sg_ngroups demo_label_grouper) (sg_labels demo_label_grouper)
   \<and> runs_contiguous (sg_labels demo_label_grouper)
   \<and> fst (SeriesGrouper_get_result no_alloc no_convert demo_label_grouper count_callback)
       = Inr ([Some (Scalar 2), Some (Scalar 3)], [2, 1])
   \<and> sum_list [2, 1] + int (count_list (sg_labels demo_label_grouper) (- 1))
       = shape0 (sg_arr demo_label_grouper)"
proof -
  have v: "labels_valid (sg_ngroups demo_label_grouper) (sg_labels demo_label_grouper)"
    by (simp add: labels_valid_def demo_label_grouper_def)
  have l: "int (length (sg_labels demo_label_grouper)) = shape0 (sg_arr demo_label_grouper)"
    by (simp add: demo_label_grouper_def demo_values_def)
  have "sorted (sg_labels demo_label_grouper)" by (simp add: demo_label_grouper_def)
  then have r: "runs_contiguous (sg_labels demo_label_grouper)" by (rule sorted_runs_contiguous)
  have run: "fst (SeriesGrouper_get_result no_alloc no_convert demo_label_grouper count_callback)
       = Inr ([Some (Scalar 2), Some (Scalar 3)], [2, 1])"
    by (simp add: label_run_defs demo_label_grouper_def)
  have "sum_list [2, 1] + int (count_list (sg_labels demo_label_grouper) (- 1))
       = shape0 (sg_arr demo_label_grouper)"
    using label_counts_sum [OF v l r, of no_alloc no_convert count_callback] run by blast
  then show ?thesis using v r run by blast
qed

text \<open>
  The claim as stated fails on labels \<open>[0, 1, 0]\<close>: \<open>counts[lab] = group_size\<close> overwrites
  the count of the first run of group 0, and the counts add up to 2 for 3 rows.
\<close>

theorem label_counts_counterexample:
  "labels_valid (sg_ngroups unsorted_grouper) (sg_labels unsorted_grouper)
   \<and> int (length (sg_labels unsorted_grouper)) = shape0 (sg_arr unsorted_grouper)
   \<and> fst (SeriesGrouper_get_result no_alloc no_convert unsorted_grouper count_callback)
       = Inr ([Some (Scalar 2), Some (Scalar 1)], [1, 1])
   \<and> sum_list [1, 1] + int (count_list (sg_labels unsorted_grouper) (- 1))
       \<noteq> shape0 (sg_arr unsorted_grouper)"
proof -
  have "fst (SeriesGrouper_get_result no_alloc no_convert unsorted_grouper count_callback)
       = Inr ([Some (Scalar 2), Some (Scalar 1)], [1, 1])"
    by (simp add: label_run_defs unsorted_grouper_def)
  then show ?thesis
    by (simp add: labels_valid_def unsorted_grouper_def demo_values_def)
qed











text \<open>
  Claim C10. For an array of an integer dtype and the unit \<open>'ns'\<close>,
  \<open>array_with_unit_to_datetime\<close> returns the values cast to \<open>datetime64[ns]\<close> with no time
  zone, under each of the three error policies; any other value of \<open>errors\<close> fails the
  assertion of line 332. So OutOfBoundsDatetime is never raised, whatever \<open>errors\<close> is. The
  cast keeps every value of the int64 range as it is, the ones outside the range of a
  Timestamp included.
\<close>

theorem integer_ns_cast_unchecked:
  "(is_ignore errors \<or> is_coerce errors \<or> is_raise errors \<longrightarrow>
      array_with_unit_to_datetime E other_unit (IntegerArray xs) ''ns'' errors
        = Inr (Datetime64 (astype_M8 xs), None))
   \<and> array_with_unit_to_datetime E other_unit (IntegerArray xs) ''ns'' errors
        \<noteq> Inl OutOfBoundsDatetime
   \<and> (list_all in_int64 xs \<longrightarrow> astype_M8 xs = xs)"
proof -
  have "to_int64 x = x" if "in_int64 x" for x
    using that unfolding to_int64_def in_int64_def by (simp add: mod_pos_pos_trivial)
  then have "list_all in_int64 xs \<longrightarrow> astype_M8 xs = xs"
    by (simp add: astype_M8_def list_all_iff map_idI)
  then show ?thesis
    by (simp add: array_with_unit_to_datetime_def)
qed

theorem integer_ns_cast_unchecked_witness:
  "array_with_unit_to_datetime demo_tslibs no_other_unit
     (IntegerArray [- 9223372036854775807, 0, 9223372036854775807]) ''ns'' ''raise''
     = Inr (Datetime64 [- 9223372036854775807, 0, 9223372036854775807], None)"
proof -
  let ?xs = "[- 9223372036854775807, 0, 9223372036854775807] :: int list"
  note T = integer_ns_cast_unchecked[of "''raise''" demo_tslibs no_other_unit ?xs]
  have p: "is_ignore ''raise'' \<or> is_coerce ''raise'' \<or> is_raise ''raise''"
    by (simp add: is_raise_def)
  have r: "list_all in_int64 ?xs" by (simp add: in_int64_def)
  from T p have a: "array_with_unit_to_datetime demo_tslibs no_other_unit (IntegerArray ?xs)
      ''ns'' ''raise'' = Inr (Datetime64 (astype_M8 ?xs), None)" by blast
  from T r have b: "astype_M8 ?xs = ?xs" by blast
  show ?thesis using a b by simp
qed


lemma offsets_inv_set_result [simp]: "offsets_inv (set_result st i v) = offsets_inv st"
  by (simp add: offsets_inv_def set_result_def)

lemma offsets_inv_flags [simp]:
  "offsets_inv (st\<lparr> seen_integer := a \<rparr>) = offsets_inv st"
  "offsets_inv (st\<lparr> seen_string := a \<rparr>) = offsets_inv st"
  "offsets_inv (st\<lparr> seen_datetime := a \<rparr>) = offsets_inv st"
  "offsets_inv (st\<lparr> returned_values := a \<rparr>) = offsets_inv st"
  "offsets_inv (st\<lparr> out_local := b \<rparr>) = offsets_inv st"
  "offsets_inv (st\<lparr> out_tzoffset := b \<rparr>) = offsets_inv st"
  by (simp_all add: offsets_inv_def)





















end
